theory Spec2Isabelle
  imports Main "HOL-Library.Sublist"
begin

section \<open>Data model\<close>

text \<open>
  The persisted schema of the buffering pipeline (tables \<open>workspaces\<close>, \<open>items\<close>,
  \<open>summaries\<close>, \<open>user_settings\<close>). A uuid is a natural number. A table is the list of
  its rows in the order in which the store hands them out for a query without an
  \<open>order\<close> clause; an inserted row goes to the end, an updated row keeps its place.
  Row-level security is not part of the model.
\<close>

type_synonym uuid = nat

datatype item_status = Pending | Summarized | Done | Archived

datatype source_kind = Slack | Web

record item =
  item_id :: uuid
  source_type :: source_kind
  content :: string
  meta_data :: "(string \<times> string) list"
  status :: item_status
  created_at :: int
  user_id :: uuid

text \<open>
  A JavaScript value as far as the pipeline handles one: what \<open>JSON.parse\<close> can return,
  and \<open>undefined\<close> for a missing property.
\<close>

datatype js =
    JUndefined
  | JNull
  | JBool bool
  | JNum int
  | JStr string
  | JArr "js list"
  | JObj "(string \<times> js) list"

record summary =
  summary_text :: js
  target_items :: "uuid list"
  summary_user_id :: uuid

record workspace =
  team_id :: string
  access_token :: string
  ws_user_id :: uuid

record db =
  workspaces :: "workspace list"
  items :: "item list"
  summaries :: "summary list"
  user_settings :: "(uuid \<times> string option) list"

text \<open>JavaScript truthiness of an optional string and of a value, \<open>a || b\<close> on strings, and property access.\<close>

fun truthy :: "string option \<Rightarrow> bool" where
  "truthy None = False"
| "truthy (Some s) = (s \<noteq> [])"

fun falsy :: "js \<Rightarrow> bool" where
  "falsy JUndefined = True"
| "falsy JNull = True"
| "falsy (JBool b) = (\<not> b)"
| "falsy (JNum n) = (n = 0)"
| "falsy (JStr s) = (s = [])"
| "falsy (JArr xs) = False"
| "falsy (JObj kvs) = False"

fun or_else :: "string option \<Rightarrow> string \<Rightarrow> string" where
  "or_else None d = d"
| "or_else (Some s) d = (if s = [] then d else s)"

fun get_prop :: "js \<Rightarrow> string \<Rightarrow> js" where
  "get_prop (JObj kvs) k = (case map_of kvs k of None \<Rightarrow> JUndefined | Some v \<Rightarrow> v)"
| "get_prop v k = JUndefined"

text \<open>
  \<open>.single()\<close> of the store client: the row when the query matches exactly one row;
  with no row or with several rows the client reports an error and \<open>data\<close> is null.
\<close>

fun single :: "'a list \<Rightarrow> 'a option" where
  "single [x] = Some x"
| "single xs = None"

text \<open>The id the store gives to a new row of \<open>items\<close>: one that no row has.\<close>

definition fresh_id :: "item list \<Rightarrow> uuid" where
  "fresh_id rows = Suc (fold max (map item_id rows) 0)"

section \<open>Environment\<close>

record process_env =
  SUPABASE_URL :: "string option"
  SUPABASE_KEY :: "string option"
  SUPABASE_SERVICE_ROLE_KEY :: "string option"
  OPENAI_API_KEY :: "string option"

text \<open>What was sent to the language model: the variable parts of the prompt templates.\<close>

datatype prompt =
    Summary_prompt "string option" string
  | Reply_prompt string string
  | Question_prompt string string

text \<open>
  The answer to \<open>openai.chat.completions.create\<close>: the call throws, or it returns
  choices, each with a message content that may be null.
\<close>

datatype completion = Api_error | Choices "string option list"

text \<open>
  The answer to a \<open>fetch\<close> of the message provider: the call throws, or there is a
  response with a status, a \<open>Retry-After\<close> header and a body; the body is \<open>None\<close> when
  \<open>res.json()\<close> throws.
\<close>

datatype 'a http = Fetch_throws | Http_response nat "string option" "'a option"

record member =
  member_id :: string
  real_name :: "string option"
  member_name :: string
  image_48 :: string
  is_bot :: bool

record users_body =
  users_ok :: bool
  members :: "member list option"

record channel =
  channel_id :: string
  channel_name :: "string option"
  is_archived :: bool

record channels_body =
  channels_ok :: bool
  channels :: "channel list option"
  next_cursor :: "string option"

record slack_message =
  msg_subtype :: "string option"
  msg_user :: "string option"
  msg_bot_id :: "string option"
  msg_text :: string
  msg_ts :: string

record history_body =
  history_ok :: bool
  messages :: "slack_message list option"

datatype delete_outcome = Delete_ok | Delete_error | Delete_throws

text \<open>
  Everything outside the code: the process environment, the JavaScript built-ins
  \<open>JSON.parse\<close> (\<open>None\<close>: it throws) and \<open>parseInt\<close> (\<open>None\<close>: NaN), the language model
  (its answer to the request made while one user is processed), the message provider
  (\<open>conversations.list\<close> by workspace token, number of the request in the pagination loop
  and cursor sent), the store's clock, and which store requests fail.
\<close>

record env =
  penv :: process_env
  JSON_parse :: "string \<Rightarrow> js option"
  parseInt :: "string \<Rightarrow> int option"
  openai_create :: "uuid \<Rightarrow> prompt \<Rightarrow> completion"
  users_list :: "string \<Rightarrow> users_body http"
  conversations_list :: "string \<Rightarrow> nat \<Rightarrow> string \<Rightarrow> channels_body http"
  conversations_history :: "string \<Rightarrow> string \<Rightarrow> history_body http"
  db_now :: int
  workspaces_query_fails :: bool
  users_query_fails :: bool
  fetch_fails :: "uuid \<Rightarrow> bool"
  save_fails :: "uuid \<Rightarrow> bool"
  update_fails :: "uuid \<Rightarrow> bool"
  retention_delete :: delete_outcome

text \<open>What the code writes to the console (errors, warnings, the retention count) and its calls to the language model.\<close>

datatype event =
    OpenAI_key_missing
  | OpenAI_request prompt
  | OpenAI_api_error
  | Scheduler_db_not_configured
  | Scheduler_fetch_users_error
  | Scheduler_no_items uuid
  | Scheduler_ai_failed uuid
  | Scheduler_save_error uuid
  | Scheduler_update_error uuid
  | Scheduler_retention_error
  | Scheduler_retention_exception
  | Scheduler_deleted nat

section \<open>AI summarization client (aiService.ts)\<close>

definition join_lines :: "string list \<Rightarrow> string" where
  "join_lines ls = concat (case ls of [] \<Rightarrow> [] | l # rest \<Rightarrow> l # map (\<lambda>x. CHR 0x0A # x) rest)"

text \<open>
  The prompt of \<open>generateSummary\<close>: rule 6 carries the custom instructions when they are
  truthy, and \<open>contentList\<close> has one line \<open>- m\<close> for each message.
\<close>

definition summary_prompt :: "string list \<Rightarrow> string option \<Rightarrow> prompt" where
  "summary_prompt msgs customInstructions =
     Summary_prompt (if truthy customInstructions then customInstructions else None)
       (join_lines (map (\<lambda>m. ''- '' @ m) msgs))"

definition generateSummary ::
  "(string \<Rightarrow> js option) \<Rightarrow> string option \<Rightarrow> (prompt \<Rightarrow> completion) \<Rightarrow>
   string list \<Rightarrow> string option \<Rightarrow> js \<times> event list" where
  "generateSummary parse apiKey create msgs customInstructions =
     (if \<not> truthy apiKey then (JNull, [OpenAI_key_missing])
      else
        let p = summary_prompt msgs customInstructions
        in case create p of
             Api_error \<Rightarrow> (JNull, [OpenAI_request p, OpenAI_api_error])
           | Choices cs \<Rightarrow>
               (case cs of
                  [] \<Rightarrow> (JNull, [OpenAI_request p, OpenAI_api_error])
                | None # _ \<Rightarrow> (JNull, [OpenAI_request p])
                | Some text # _ \<Rightarrow>
                    (if text = [] then (JNull, [OpenAI_request p])
                     else case parse text of
                            None \<Rightarrow> (JNull, [OpenAI_request p, OpenAI_api_error])
                          | Some v \<Rightarrow> (v, [OpenAI_request p]))))"

definition generateReplyDraft ::
  "string option \<Rightarrow> (prompt \<Rightarrow> completion) \<Rightarrow> string \<Rightarrow> string \<Rightarrow> string option \<times> event list" where
  "generateReplyDraft apiKey create originalMessage tone =
     (if \<not> truthy apiKey then (None, [OpenAI_key_missing])
      else
        let p = Reply_prompt originalMessage tone
        in case create p of
             Api_error \<Rightarrow> (None, [OpenAI_request p, OpenAI_api_error])
           | Choices cs \<Rightarrow>
               (case cs of
                  [] \<Rightarrow> (None, [OpenAI_request p, OpenAI_api_error])
                | c # _ \<Rightarrow> (if truthy c then c else None, [OpenAI_request p])))"

definition askAboutSummary ::
  "string option \<Rightarrow> (prompt \<Rightarrow> completion) \<Rightarrow> string \<Rightarrow> string \<Rightarrow> string option \<times> event list" where
  "askAboutSummary apiKey create summaryContext question =
     (if \<not> truthy apiKey then (None, [OpenAI_key_missing])
      else
        let p = Question_prompt summaryContext question
        in case create p of
             Api_error \<Rightarrow> (None, [OpenAI_request p, OpenAI_api_error])
           | Choices cs \<Rightarrow>
               (case cs of
                  [] \<Rightarrow> (None, [OpenAI_request p, OpenAI_api_error])
                | c # _ \<Rightarrow> (if truthy c then c else None, [OpenAI_request p])))"

section \<open>Source poller (slackService.ts)\<close>

definition cron_supabase :: "process_env \<Rightarrow> bool" where
  "cron_supabase pe = (truthy (SUPABASE_URL pe) \<and> truthy (SUPABASE_KEY pe))"

definition slack_supabase :: "process_env \<Rightarrow> bool" where
  "slack_supabase pe =
     (truthy (SUPABASE_URL pe) \<and>
      truthy (if truthy (SUPABASE_SERVICE_ROLE_KEY pe) then SUPABASE_SERVICE_ROLE_KEY pe
              else SUPABASE_KEY pe))"

record user_info =
  info_name :: string
  info_avatar :: string
  info_is_bot :: bool

definition set_user :: "member \<Rightarrow> (string \<rightharpoonup> user_info) \<Rightarrow> (string \<rightharpoonup> user_info)" where
  "set_user u m =
     m(member_id u \<mapsto>
       \<lparr>info_name = or_else (real_name u) (member_name u),
        info_avatar = image_48 u,
        info_is_bot = is_bot u\<rparr>)"

definition build_userMap :: "users_body \<Rightarrow> (string \<rightharpoonup> user_info)" where
  "build_userMap usersData =
     (case members usersData of
        None \<Rightarrow> Map.empty
      | Some ms \<Rightarrow> if users_ok usersData then fold set_user ms Map.empty else Map.empty)"

text \<open>\<open>retryAfter ? parseInt(retryAfter) * 1000 : 2000\<close>, in milliseconds; \<open>None\<close> is NaN.\<close>

definition waitTime :: "(string \<Rightarrow> int option) \<Rightarrow> string option \<Rightarrow> int option" where
  "waitTime parse_int retryAfter =
     (case retryAfter of
        None \<Rightarrow> Some 2000
      | Some h \<Rightarrow> if h = [] then Some 2000 else map_option (\<lambda>n. n * 1000) (parse_int h))"

text \<open>
  The pagination loop \<open>while (true)\<close> over \<open>conversations.list\<close>. Its state is the number
  of requests made so far, the cursor, the channels collected and the sleeps done; it
  returns the last two when it leaves the loop, and \<open>None\<close> when it never leaves it.
\<close>

partial_function (option) list_channels ::
  "(nat \<Rightarrow> string \<Rightarrow> channels_body http) \<Rightarrow> (string \<Rightarrow> int option) \<Rightarrow> nat \<Rightarrow> string \<Rightarrow>
   channel list \<Rightarrow> int option list \<Rightarrow> (channel list \<times> int option list) option" where
  "list_channels api parse_int n cursor allChannels sleeps =
     (case api n cursor of
        Fetch_throws \<Rightarrow> Some (allChannels, sleeps)
      | Http_response st retryAfter body \<Rightarrow>
          if st = 429
          then list_channels api parse_int (Suc n) cursor allChannels
                 (sleeps @ [waitTime parse_int retryAfter])
          else
            (case body of
               None \<Rightarrow> Some (allChannels, sleeps)
             | Some channelsData \<Rightarrow>
                 if \<not> channels_ok channelsData then Some (allChannels, sleeps)
                 else
                   let allChannels' =
                         (case channels channelsData of
                            None \<Rightarrow> allChannels
                          | Some cs \<Rightarrow> allChannels @ cs)
                   in (case next_cursor channelsData of
                         None \<Rightarrow> Some (allChannels', sleeps)
                       | Some c \<Rightarrow>
                           if c = [] then Some (allChannels', sleeps)
                           else list_channels api parse_int (Suc n) c allChannels'
                                  (sleeps @ [Some 100]))))"

declare list_channels.simps [code]

text \<open>The duplicate check: the row of \<open>items\<close> with this \<open>ts\<close> and this channel in its metadata.\<close>

definition existing_item :: "db \<Rightarrow> string \<Rightarrow> string \<Rightarrow> item option" where
  "existing_item d ts ch =
     single (filter (\<lambda>i. map_of (meta_data i) ''ts'' = Some ts \<and>
                          map_of (meta_data i) ''channel'' = Some ch) (items d))"

text \<open>The body of the loop over the messages of one channel.\<close>

definition save_message ::
  "int \<Rightarrow> workspace \<Rightarrow> (string \<rightharpoonup> user_info) \<Rightarrow> channel \<Rightarrow> slack_message \<Rightarrow> db \<Rightarrow> db" where
  "save_message now ws userMap ch msg d =
     (if truthy (msg_subtype msg) then d
      else if \<not> truthy (msg_user msg) then d
      else if truthy (msg_bot_id msg) then d
      else
        let author = (case msg_user msg of None \<Rightarrow> [] | Some a \<Rightarrow> a);
            userInfo = userMap author
        in if (case userInfo of None \<Rightarrow> False | Some ui \<Rightarrow> info_is_bot ui) then d
           else
             let userName = (case userInfo of None \<Rightarrow> author | Some ui \<Rightarrow> info_name ui);
                 userAvatar = (case userInfo of None \<Rightarrow> [] | Some ui \<Rightarrow> info_avatar ui)
             in (case existing_item d (msg_ts msg) (channel_id ch) of
                   Some e \<Rightarrow> d
                 | None \<Rightarrow>
                     d\<lparr>items := items d @
                        [\<lparr>item_id = fresh_id (items d),
                          source_type = Slack,
                          content = msg_text msg,
                          meta_data =
                            [(''user'', author),
                             (''user_name'', userName),
                             (''user_avatar'', userAvatar),
                             (''channel'', channel_id ch),
                             (''channel_name'', or_else (channel_name ch) ''DM''),
                             (''ts'', msg_ts msg),
                             (''team'', team_id ws)],
                          status = Pending,
                          created_at = now,
                          user_id = ws_user_id ws\<rparr>]\<rparr>))"

text \<open>
  The loop over the channels of one workspace. A \<open>fetch\<close> or a \<open>json()\<close> that throws
  leaves the loop for the \<open>catch\<close> of the workspace, with what was stored so far.
\<close>

fun poll_channels ::
  "env \<Rightarrow> workspace \<Rightarrow> (string \<rightharpoonup> user_info) \<Rightarrow> channel list \<Rightarrow> db \<Rightarrow> db" where
  "poll_channels e ws userMap [] d = d"
| "poll_channels e ws userMap (ch # chs) d =
     (if is_archived ch then poll_channels e ws userMap chs d
      else
        (case conversations_history e (access_token ws) (channel_id ch) of
           Fetch_throws \<Rightarrow> d
         | Http_response st retryAfter body \<Rightarrow>
             if st = 429 then poll_channels e ws userMap chs d
             else
               (case body of
                  None \<Rightarrow> d
                | Some historyData \<Rightarrow>
                    if \<not> history_ok historyData then poll_channels e ws userMap chs d
                    else
                      (case messages historyData of
                         None \<Rightarrow> poll_channels e ws userMap chs d
                       | Some ms \<Rightarrow>
                           poll_channels e ws userMap chs
                             (fold (save_message (db_now e) ws userMap ch) ms d)))))"

definition poll_workspace :: "env \<Rightarrow> workspace \<Rightarrow> db \<Rightarrow> db option" where
  "poll_workspace e ws d =
     (if access_token ws = [] then Some d
      else
        (case users_list e (access_token ws) of
           Fetch_throws \<Rightarrow> Some d
         | Http_response st retryAfter body \<Rightarrow>
             (case body of
                None \<Rightarrow> Some d
              | Some usersData \<Rightarrow>
                  (case list_channels (conversations_list e (access_token ws)) (parseInt e)
                          0 [] [] [] of
                     None \<Rightarrow> None
                   | Some (allChannels, sleeps) \<Rightarrow>
                       Some (poll_channels e ws (build_userMap usersData) allChannels d)))))"

fun poll_workspaces :: "env \<Rightarrow> workspace list \<Rightarrow> db \<Rightarrow> db option" where
  "poll_workspaces e [] d = Some d"
| "poll_workspaces e (ws # wss) d =
     (case poll_workspace e ws d of
        None \<Rightarrow> None
      | Some d' \<Rightarrow> poll_workspaces e wss d')"

text \<open>\<open>fetchSlackMessages\<close>: the store after the poll, \<open>None\<close> when the poll never returns.\<close>

definition fetchSlackMessages :: "env \<Rightarrow> db \<Rightarrow> db option" where
  "fetchSlackMessages e d =
     (if \<not> slack_supabase (penv e) then Some d
      else if workspaces_query_fails e \<or> workspaces d = [] then Some d
      else poll_workspaces e (workspaces d) d)"

section \<open>Batch summarizer (cronService.ts)\<close>

record report_entry =
  userId :: uuid
  processed :: nat
  summary_of :: js

datatype batch_result =
    Batch_null
  | Batch_count_zero
  | Batch_report nat "report_entry list"

text \<open>\<open>[...new Set(xs)]\<close>: the distinct values in the order of their first occurrence.\<close>

definition unique :: "'a list \<Rightarrow> 'a list" where
  "unique xs = rev (remdups (rev xs))"

text \<open>The query for the pending items of one user, \<open>limit(50)\<close>.\<close>

definition fetch_pending :: "db \<Rightarrow> uuid \<Rightarrow> item list" where
  "fetch_pending d u = take 50 (filter (\<lambda>i. status i = Pending \<and> user_id i = u) (items d))"

text \<open>\<open>settings?.report_custom_instructions || undefined\<close>.\<close>

definition customInstructions_of :: "db \<Rightarrow> uuid \<Rightarrow> string option" where
  "customInstructions_of d u =
     (case single (filter (\<lambda>r. fst r = u) (user_settings d)) of
        None \<Rightarrow> None
      | Some r \<Rightarrow> if truthy (snd r) then snd r else None)"

text \<open>The call to the AI client made for one user on a batch of items.\<close>

definition summarize_for :: "env \<Rightarrow> db \<Rightarrow> uuid \<Rightarrow> item list \<Rightarrow> js \<times> event list" where
  "summarize_for e d u batch =
     generateSummary (JSON_parse e) (OPENAI_API_KEY (penv e)) (openai_create e u)
       (map content batch) (customInstructions_of d u)"

text \<open>\<open>update({status: 'summarized'}).in('id', itemIds)\<close>.\<close>

definition mark_summarized :: "uuid list \<Rightarrow> item list \<Rightarrow> item list" where
  "mark_summarized itemIds rows =
     map (\<lambda>i. if item_id i \<in> set itemIds then i\<lparr>status := Summarized\<rparr> else i) rows"

text \<open>
  The body of the loop over the users. The state is the store, \<open>summaryResults\<close> and
  the console.
\<close>

definition process_user ::
  "env \<Rightarrow> uuid \<Rightarrow> db \<times> report_entry list \<times> event list \<Rightarrow> db \<times> report_entry list \<times> event list" where
  "process_user e u st =
     (case st of (d, summaryResults, console) \<Rightarrow>
        let batch = fetch_pending d u
        in if fetch_fails e u \<or> batch = [] then (d, summaryResults, console @ [Scheduler_no_items u])
           else
             let (result, io) = summarize_for e d u batch
             in if falsy result then (d, summaryResults, console @ io @ [Scheduler_ai_failed u])
                else
                  let itemIds = map item_id batch
                  in if save_fails e u
                     then (d, summaryResults, console @ io @ [Scheduler_save_error u])
                     else
                       let d1 = d\<lparr>summaries := summaries d @
                                    [\<lparr>summary_text = get_prop result ''summaryText'',
                                      target_items = itemIds,
                                      summary_user_id = u\<rparr>]\<rparr>;
                           entry = \<lparr>userId = u, processed = length batch,
                                    summary_of = get_prop result ''summaryText''\<rparr>
                       in if update_fails e u
                          then (d1, summaryResults @ [entry],
                                console @ io @ [Scheduler_update_error u])
                          else (d1\<lparr>items := mark_summarized itemIds (items d1)\<rparr>,
                                summaryResults @ [entry], console @ io))"

text \<open>
  \<open>runBatchSummarization\<close>: the store after the run, what the function returns and the
  console; \<open>None\<close> when the poll it starts with never returns.
\<close>

definition runBatchSummarization :: "env \<Rightarrow> db \<Rightarrow> (db \<times> batch_result \<times> event list) option" where
  "runBatchSummarization e d =
     (if \<not> cron_supabase (penv e) then Some (d, Batch_null, [Scheduler_db_not_configured])
      else
        (case fetchSlackMessages e d of
           None \<Rightarrow> None
         | Some d1 \<Rightarrow>
             if users_query_fails e then Some (d1, Batch_null, [Scheduler_fetch_users_error])
             else
               let usersWithPendingItems =
                     sort (map user_id (filter (\<lambda>i. status i = Pending) (items d1)))
               in if usersWithPendingItems = [] then Some (d1, Batch_count_zero, [])
                  else
                    (case fold (process_user e) (unique usersWithPendingItems) (d1, [], []) of
                       (d2, summaryResults, console) \<Rightarrow>
                         Some (d2, Batch_report (length summaryResults) summaryResults, console))))"

section \<open>Retention sweeper (cronService.ts)\<close>

text \<open>
  \<open>dateThreshold.setDate(dateThreshold.getDate() - 7)\<close>, as milliseconds since the epoch.
  The code steps back seven calendar days in the time zone of the process; the model
  is of a process whose zone has no daylight-saving change in those seven days (a
  process in UTC, for one), where seven calendar days are 7 * 24 hours. Across such a
  change the code's threshold is an hour earlier or later than the model's.
\<close>

definition dateThreshold :: "int \<Rightarrow> int" where
  "dateThreshold now = now - 7 * 24 * 60 * 60 * 1000"

text \<open>The filter of the delete request: \<open>lt created_at\<close>, \<open>in status\<close>, \<open>neq source_type\<close>.\<close>

definition retention_match :: "int \<Rightarrow> item \<Rightarrow> bool" where
  "retention_match threshold i =
     (created_at i < threshold \<and>
      status i \<in> set [Archived, Done, Summarized] \<and>
      source_type i \<noteq> Web)"

text \<open>
  \<open>runRetentionPolicy\<close>: the store after the sweep, the value the function returns
  (\<open>None\<close> is \<open>undefined\<close>) and the console. A delete request that fails removes nothing.
\<close>

definition runRetentionPolicy :: "env \<Rightarrow> int \<Rightarrow> db \<Rightarrow> db \<times> nat option \<times> event list" where
  "runRetentionPolicy e now d =
     (if \<not> cron_supabase (penv e) then (d, None, [])
      else
        (case retention_delete e of
           Delete_throws \<Rightarrow> (d, None, [Scheduler_retention_exception])
         | Delete_error \<Rightarrow> (d, None, [Scheduler_retention_error])
         | Delete_ok \<Rightarrow>
             let count = length (filter (retention_match (dateThreshold now)) (items d))
             in (d\<lparr>items := filter (\<lambda>i. \<not> retention_match (dateThreshold now) i) (items d)\<rparr>,
                 None, [Scheduler_deleted count])))"

text \<open>The route \<open>GET /cron/retention\<close> after the secret check: the \<open>count\<close> of its answer.\<close>

definition cron_retention_count :: "env \<Rightarrow> int \<Rightarrow> db \<Rightarrow> nat option" where
  "cron_retention_count e now d = fst (snd (runRetentionPolicy e now d))"

section \<open>Notions used in the statements\<close>

text \<open>The Summary row and the report entry that one user's step writes for a result and a batch.\<close>

definition new_summary :: "uuid \<Rightarrow> js \<Rightarrow> item list \<Rightarrow> summary" where
  "new_summary u r batch =
     \<lparr>summary_text = get_prop r ''summaryText'', target_items = map item_id batch,
      summary_user_id = u\<rparr>"

definition new_entry :: "uuid \<Rightarrow> js \<Rightarrow> item list \<Rightarrow> report_entry" where
  "new_entry u r batch =
     \<lparr>userId = u, processed = length batch, summary_of = get_prop r ''summaryText''\<rparr>"

text \<open>The user that a line of the console is about.\<close>

fun event_user :: "event \<Rightarrow> uuid option" where
  "event_user (Scheduler_no_items u) = Some u"
| "event_user (Scheduler_ai_failed u) = Some u"
| "event_user (Scheduler_save_error u) = Some u"
| "event_user (Scheduler_update_error u) = Some u"
| "event_user ev = None"

text \<open>
  What belongs to one user in a state of the loop: items, summaries, report entries,
  console lines, settings.
\<close>

definition user_view ::
  "uuid \<Rightarrow> db \<times> report_entry list \<times> event list \<Rightarrow>
   item list \<times> summary list \<times> report_entry list \<times> event list \<times> (uuid \<times> string option) list" where
  "user_view u st =
     (filter (\<lambda>i. user_id i = u) (items (fst st)),
      filter (\<lambda>s. summary_user_id s = u) (summaries (fst st)),
      filter (\<lambda>x. userId x = u) (fst (snd st)),
      filter (\<lambda>ev. event_user ev = Some u) (snd (snd st)),
      user_settings (fst st))"

text \<open>The users that the batch run works through, after \<open>[...new Set(...)]\<close>.\<close>

definition pending_users :: "db \<Rightarrow> uuid list" where
  "pending_users d = unique (sort (map user_id (filter (\<lambda>i. status i = Pending) (items d))))"

text \<open>
  The rows of \<open>items\<close> with a given timestamp and channel in their metadata; a store in
  which no such pair has more than one row; a store that has every pair that another
  store has exactly once also exactly once.
\<close>

definition key_rows :: "db \<Rightarrow> string \<Rightarrow> string \<Rightarrow> item list" where
  "key_rows d ts ch =
     filter (\<lambda>i. map_of (meta_data i) ''ts'' = Some ts \<and>
                  map_of (meta_data i) ''channel'' = Some ch) (items d)"

definition keys_unique :: "db \<Rightarrow> bool" where
  "keys_unique d = (\<forall>ts ch. length (key_rows d ts ch) \<le> 1)"

definition covers :: "db \<Rightarrow> db \<Rightarrow> bool" where
  "covers d d' = (\<forall>ts ch. length (key_rows d ts ch) = 1 \<longrightarrow> length (key_rows d' ts ch) = 1)"

text \<open>
  A step of the poll settles a store: it keeps the pairs unique, keeps the workspaces and
  the pairs that were there, and changes no store that has the pairs of its result.
\<close>

definition settles :: "(db \<Rightarrow> db) \<Rightarrow> db \<Rightarrow> bool" where
  "settles f d =
     (keys_unique (f d) \<and> covers d (f d) \<and> workspaces (f d) = workspaces d \<and>
      (\<forall>d'. keys_unique d' \<and> covers (f d) d' \<longrightarrow> f d' = d'))"

definition settles_opt :: "(db \<Rightarrow> db option) \<Rightarrow> bool" where
  "settles_opt F =
     ((\<forall>d. F d = None) \<or>
      (\<exists>f. (\<forall>d. F d = Some (f d)) \<and> (\<forall>d. keys_unique d \<longrightarrow> settles f d)))"

section \<open>Example inputs\<close>

definition example_penv :: process_env where
  "example_penv =
     \<lparr>SUPABASE_URL = Some ''https://store'', SUPABASE_KEY = Some ''key'',
      SUPABASE_SERVICE_ROLE_KEY = None, OPENAI_API_KEY = Some ''sk''\<rparr>"

definition digest_text :: string where
  \<open>digest_text = ''{"summaryText":"digest","keyTopics":[]}''\<close>

text \<open>\<open>JSON.parse\<close> on the texts that the examples parse; it throws on any other text.\<close>

definition example_JSON_parse :: "string \<Rightarrow> js option" where
  "example_JSON_parse t =
     (if t = digest_text then Some (JObj [(''summaryText'', JStr ''digest''), (''keyTopics'', JArr [])])
      else if t = ''{}'' then Some (JObj [])
      else None)"

text \<open>
  An environment in which everything works: the model answers with \<open>digest_text\<close>, the
  message provider has no user, no channel and no message, no store request fails.
\<close>

definition example_env :: env where
  "example_env =
     \<lparr>penv = example_penv,
      JSON_parse = example_JSON_parse,
      parseInt = (\<lambda>s. None),
      openai_create = (\<lambda>u p. Choices [Some digest_text]),
      users_list = (\<lambda>token. Http_response 200 None (Some \<lparr>users_ok = True, members = Some []\<rparr>)),
      conversations_list = (\<lambda>token n cursor.
         Http_response 200 None (Some \<lparr>channels_ok = True, channels = Some [], next_cursor = None\<rparr>)),
      conversations_history = (\<lambda>token ch.
         Http_response 200 None (Some \<lparr>history_ok = True, messages = Some []\<rparr>)),
      db_now = 1000000000,
      workspaces_query_fails = False,
      users_query_fails = False,
      fetch_fails = (\<lambda>u. False),
      save_fails = (\<lambda>u. False),
      update_fails = (\<lambda>u. False),
      retention_delete = Delete_ok\<rparr>"

text \<open>
  Three items created ten days before \<open>db_now example_env\<close>: processed and from the
  message provider, processed and a saved link, still pending.
\<close>

definition old_item :: "uuid \<Rightarrow> source_kind \<Rightarrow> item_status \<Rightarrow> item" where
  "old_item n k s =
     \<lparr>item_id = n, source_type = k, content = ''text'', meta_data = [], status = s,
      created_at = 136000000, user_id = 1\<rparr>"

definition sweep_db :: db where
  "sweep_db =
     \<lparr>workspaces = [],
      items = [old_item 1 Slack Done, old_item 2 Web Done, old_item 3 Slack Pending],
      summaries = [], user_settings = []\<rparr>"

text \<open>
  The scenario of the specification: three pending items of user 1, none of user 2
  (whose only item is summarized already), no workspace to poll.
\<close>

definition slack_item :: "uuid \<Rightarrow> uuid \<Rightarrow> item_status \<Rightarrow> int \<Rightarrow> string \<Rightarrow> item" where
  "slack_item n u s t txt =
     \<lparr>item_id = n, source_type = Slack, content = txt, meta_data = [], status = s,
      created_at = t, user_id = u\<rparr>"

definition batch_db :: db where
  "batch_db =
     \<lparr>workspaces = [],
      items = [slack_item 1 1 Pending 900000001 ''deploy failed'',
               slack_item 2 1 Pending 900000002 ''lunch plans'',
               slack_item 3 1 Pending 900000003 ''contract signed'',
               slack_item 4 2 Summarized 900000004 ''old news''],
      summaries = [], user_settings = []\<rparr>"

text \<open>One pending item for each of two users.\<close>

definition two_user_db :: db where
  "two_user_db =
     \<lparr>workspaces = [],
      items = [slack_item 1 1 Pending 900000001 ''deploy failed'',
               slack_item 2 2 Pending 900000002 ''lunch plans''],
      summaries = [], user_settings = []\<rparr>"

text \<open>Two pending items of one user that the store returns newest first.\<close>

definition newest_first_db :: db where
  "newest_first_db =
     \<lparr>workspaces = [],
      items = [slack_item 1 1 Pending 20 ''second message'',
               slack_item 2 1 Pending 10 ''first message''],
      summaries = [], user_settings = []\<rparr>"

text \<open>The environments in which, for user 1, the status update or the Summary insert fails.\<close>

definition update_fails_env :: env where
  "update_fails_env = example_env\<lparr>update_fails := (\<lambda>u. u = 1)\<rparr>"

definition save_fails_env :: env where
  "save_fails_env = example_env\<lparr>save_fails := (\<lambda>u. u = 1)\<rparr>"

text \<open>The number of items in the store that a poll returns.\<close>

definition item_count :: "db option \<Rightarrow> nat option" where
  "item_count r = map_option (\<lambda>d. length (items d)) r"

text \<open>A store with one connected workspace and no item.\<close>

definition example_workspace :: workspace where
  "example_workspace = \<lparr>team_id = ''T1'', access_token = ''xoxp-token'', ws_user_id = 1\<rparr>"

definition one_workspace_db :: db where
  "one_workspace_db =
     \<lparr>workspaces = [example_workspace], items = [], summaries = [], user_settings = []\<rparr>"

text \<open>The message provider answers every \<open>conversations.list\<close> request with status 429.\<close>

definition rate_limited_env :: env where
  "rate_limited_env =
     example_env\<lparr>conversations_list := (\<lambda>token n cursor. Http_response 429 None None)\<rparr>"

text \<open>
  The workspace has one channel with one message of a human author in the lookback
  window, and the provider gives the same answers to every poll.
\<close>

definition example_message :: slack_message where
  "example_message =
     \<lparr>msg_subtype = None, msg_user = Some ''U1'', msg_bot_id = None,
      msg_text = ''deploy failed'', msg_ts = ''1700000000.000100''\<rparr>"

definition chat_env :: env where
  "chat_env =
     example_env
       \<lparr>conversations_list := (\<lambda>token n cursor.
          Http_response 200 None
            (Some \<lparr>channels_ok = True,
                   channels = Some [\<lparr>channel_id = ''C1'', channel_name = Some ''general'',
                                     is_archived = False\<rparr>],
                   next_cursor = None\<rparr>)),
        conversations_history := (\<lambda>token ch.
          Http_response 200 None
            (Some \<lparr>history_ok = True, messages = Some [example_message]\<rparr>))\<rparr>"

text \<open>
  The row that the route \<open>/webhook/slack\<close> stores for this message, and a store that
  holds it twice (the route inserts without a duplicate check).
\<close>

definition stored_message :: "uuid \<Rightarrow> item" where
  "stored_message n =
     \<lparr>item_id = n, source_type = Slack, content = ''deploy failed'',
      meta_data = [(''user'', ''U1''), (''user_name'', ''U1''), (''user_avatar'', ''''),
                   (''channel'', ''C1''), (''ts'', ''1700000000.000100''), (''team'', ''T1'')],
      status = Pending, created_at = 999999000, user_id = 1\<rparr>"

definition duplicated_db :: db where
  "duplicated_db =
     \<lparr>workspaces = [example_workspace], items = [stored_message 1, stored_message 2],
      summaries = [], user_settings = []\<rparr>"

text \<open>The language model answers every request with the text \<open>{}\<close>.\<close>

definition empty_object_env :: env where
  "empty_object_env = example_env\<lparr>openai_create := (\<lambda>u p. Choices [Some ''{}''])\<rparr>"

text \<open>
  The same three items and a processed item of the message provider created one day
  before \<open>db_now example_env\<close>.
\<close>

definition recent_item :: "uuid \<Rightarrow> source_kind \<Rightarrow> item_status \<Rightarrow> item" where
  "recent_item n k s =
     \<lparr>item_id = n, source_type = k, content = ''text'', meta_data = [], status = s,
      created_at = 913600000, user_id = 1\<rparr>"

definition retention_db :: db where
  "retention_db =
     \<lparr>workspaces = [],
      items = [old_item 1 Slack Done, old_item 2 Web Done, old_item 3 Slack Pending,
               recent_item 4 Slack Done],
      summaries = [], user_settings = []\<rparr>"

section \<open>Retention sweeper: properties\<close>

lemma example_env_configured: "cron_supabase (penv example_env)"
  by (simp add: example_env_def example_penv_def cron_supabase_def)

text \<open>
  C2. When the store is configured and the delete request succeeds, the sweep at time
  \<open>now\<close> (milliseconds, in a process without a daylight-saving change in the last seven
  days) removes an item exactly when it was created more than 7 days = 604800000 ms
  before \<open>now\<close>, its status is archived, done or summarized, and its source kind is not
  web. Whatever happens to the request, an item of source kind web and a pending item
  stay in the store.
\<close>

theorem retention_deletes_iff:
  "(cron_supabase (penv e) \<and> retention_delete e = Delete_ok \<longrightarrow>
      (\<forall>i \<in> set (items d).
         i \<notin> set (items (fst (runRetentionPolicy e now d))) \<longleftrightarrow>
           (created_at i < now - 604800000 \<and>
            (status i = Archived \<or> status i = Done \<or> status i = Summarized) \<and>
            source_type i \<noteq> Web))) \<and>
   (\<forall>i \<in> set (items d).
      source_type i = Web \<or> status i = Pending \<longrightarrow>
        i \<in> set (items (fst (runRetentionPolicy e now d))))"
  by (auto simp: runRetentionPolicy_def Let_def retention_match_def dateThreshold_def
      split: delete_outcome.splits)

theorem retention_deletes_iff_witness:
  "cron_supabase (penv example_env) \<and> retention_delete example_env = Delete_ok \<and>
   old_item 1 Slack Done \<in> set (items retention_db) \<and>
   old_item 1 Slack Done \<notin> set (items (fst (runRetentionPolicy example_env 1000000000 retention_db))) \<and>
   old_item 2 Web Done \<in> set (items (fst (runRetentionPolicy example_env 1000000000 retention_db))) \<and>
   old_item 3 Slack Pending \<in> set (items (fst (runRetentionPolicy example_env 1000000000 retention_db))) \<and>
   recent_item 4 Slack Done \<in> set (items retention_db) \<and>
   recent_item 4 Slack Done \<in> set (items (fst (runRetentionPolicy example_env 1000000000 retention_db)))"
proof -
  have ok: "retention_delete example_env = Delete_ok" by (simp add: example_env_def)
  have mem: "old_item 1 Slack Done \<in> set (items retention_db)"
    "old_item 2 Web Done \<in> set (items retention_db)"
    "old_item 3 Slack Pending \<in> set (items retention_db)"
    "recent_item 4 Slack Done \<in> set (items retention_db)"
    by (simp_all add: retention_db_def)
  note sweep = retention_deletes_iff [of example_env retention_db 1000000000]
  from sweep example_env_configured ok have iff:
    "\<forall>i \<in> set (items retention_db).
       i \<notin> set (items (fst (runRetentionPolicy example_env 1000000000 retention_db))) \<longleftrightarrow>
         (created_at i < 1000000000 - 604800000 \<and>
          (status i = Archived \<or> status i = Done \<or> status i = Summarized) \<and>
          source_type i \<noteq> Web)"
    by blast
  from sweep have keep:
    "\<forall>i \<in> set (items retention_db).
       source_type i = Web \<or> status i = Pending \<longrightarrow>
         i \<in> set (items (fst (runRetentionPolicy example_env 1000000000 retention_db)))"
    by blast
  from iff [THEN bspec, OF mem(1)] have gone:
    "old_item 1 Slack Done \<notin> set (items (fst (runRetentionPolicy example_env 1000000000 retention_db)))"
    by (simp add: old_item_def)
  from keep [THEN bspec, OF mem(2)] have web:
    "old_item 2 Web Done \<in> set (items (fst (runRetentionPolicy example_env 1000000000 retention_db)))"
    by (simp add: old_item_def)
  from keep [THEN bspec, OF mem(3)] have pend:
    "old_item 3 Slack Pending \<in> set (items (fst (runRetentionPolicy example_env 1000000000 retention_db)))"
    by (simp add: old_item_def)
  from iff [THEN bspec, OF mem(4)] have recent:
    "recent_item 4 Slack Done \<in> set (items (fst (runRetentionPolicy example_env 1000000000 retention_db)))"
    by (simp add: recent_item_def)
  show ?thesis
    by (intro conjI example_env_configured ok mem(1) gone web pend mem(4) recent)
qed

text \<open>
  C8. The sweep of \<open>sweep_db\<close> deletes one row and writes the count 1 to the console, but
  \<open>runRetentionPolicy\<close> returns \<open>undefined\<close>, and so the route answers without a count.
\<close>

theorem retention_returns_no_count:
  "length (items sweep_db) - length (items (fst (runRetentionPolicy example_env 1000000000 sweep_db))) = 1 \<and>
   snd (snd (runRetentionPolicy example_env 1000000000 sweep_db)) = [Scheduler_deleted 1] \<and>
   fst (snd (runRetentionPolicy example_env 1000000000 sweep_db)) = None \<and>
   cron_retention_count example_env 1000000000 sweep_db = None"
  using example_env_configured
  by (simp add: runRetentionPolicy_def cron_retention_count_def Let_def retention_match_def
      dateThreshold_def sweep_db_def old_item_def example_env_def)

section \<open>Batch summarizer: properties\<close>

lemma process_user_unfold:
  "process_user e u (d, rs, c) =
    (let batch = fetch_pending d u; r = fst (summarize_for e d u batch);
         io = snd (summarize_for e d u batch)
     in if fetch_fails e u \<or> batch = [] then (d, rs, c @ [Scheduler_no_items u])
        else if falsy r then (d, rs, c @ io @ [Scheduler_ai_failed u])
        else if save_fails e u then (d, rs, c @ io @ [Scheduler_save_error u])
        else if update_fails e u
          then (d\<lparr>summaries := summaries d @ [new_summary u r batch]\<rparr>,
                rs @ [new_entry u r batch], c @ io @ [Scheduler_update_error u])
          else (d\<lparr>summaries := summaries d @ [new_summary u r batch],
                  items := mark_summarized (map item_id batch) (items d)\<rparr>,
                rs @ [new_entry u r batch], c @ io))"
  by (simp add: process_user_def Let_def new_summary_def new_entry_def split: prod.splits)

lemma summarize_events:
  "filter (\<lambda>ev. event_user ev = Some w) (snd (summarize_for e d u batch)) = []"
  by (simp add: summarize_for_def generateSummary_def Let_def
      split: completion.splits list.splits option.splits)

lemma mark_ids: "map item_id (mark_summarized ids rows) = map item_id rows"
  by (induction rows) (simp_all add: mark_summarized_def)

lemma filter_map_stable:
  "(\<And>x. x \<in> set xs \<Longrightarrow> P (f x) = P x) \<Longrightarrow> filter P (map f xs) = map f (filter P xs)"
  by (induction xs) simp_all

lemma mark_filter_user:
  "filter (\<lambda>i. user_id i = u) (mark_summarized ids rows) =
   mark_summarized ids (filter (\<lambda>i. user_id i = u) rows)"
  unfolding mark_summarized_def by (rule filter_map_stable) simp

lemma fetch_pending_sub:
  "x \<in> set (fetch_pending d v) \<Longrightarrow> x \<in> set (items d) \<and> status x = Pending \<and> user_id x = v"
  unfolding fetch_pending_def by (auto dest: in_set_takeD)

lemma distinct_ids_eq:
  "distinct (map item_id rows) \<Longrightarrow> x \<in> set rows \<Longrightarrow> y \<in> set rows \<Longrightarrow>
   item_id x = item_id y \<Longrightarrow> x = y"
  by (meson distinct_map inj_onD)

lemma batch_ids_owner:
  assumes "distinct (map item_id (items d))" "i \<in> set (items d)"
    and "item_id i \<in> set (map item_id (fetch_pending d v))"
  shows "user_id i = v"
proof -
  from assms(3) obtain j where j: "j \<in> set (fetch_pending d v)" "item_id j = item_id i" by auto
  from j(1) have "j \<in> set (items d)" "user_id j = v" by (auto dest: fetch_pending_sub)
  with assms(1,2) j(2) show ?thesis using distinct_ids_eq by metis
qed

lemma mark_other_user:
  assumes "distinct (map item_id (items d))" "v \<noteq> u"
  shows "mark_summarized (map item_id (fetch_pending d v)) (filter (\<lambda>i. user_id i = u) (items d))
         = filter (\<lambda>i. user_id i = u) (items d)"
proof -
  have "\<And>i. i \<in> set (filter (\<lambda>i. user_id i = u) (items d)) \<Longrightarrow>
            item_id i \<notin> set (map item_id (fetch_pending d v))"
    using assms batch_ids_owner by fastforce
  then show ?thesis unfolding mark_summarized_def by (intro map_idI) simp
qed

lemma process_user_ids:
  "map item_id (items (fst (process_user e v st))) = map item_id (items (fst st))"
  by (cases st) (simp add: process_user_unfold Let_def mark_ids)

lemma view_other:
  assumes "distinct (map item_id (items (fst st)))" "v \<noteq> u"
  shows "user_view u (process_user e v st) = user_view u st"
proof -
  obtain d rs c where st: "st = (d, rs, c)" by (cases st)
  show ?thesis using assms mark_other_user[of d v u]
    by (simp add: st process_user_unfold Let_def user_view_def mark_filter_user new_summary_def
        new_entry_def summarize_events)
qed

lemma view_fold:
  "distinct (map item_id (items (fst st))) \<Longrightarrow> u \<notin> set us \<Longrightarrow>
   user_view u (fold (process_user e) us st) = user_view u st"
proof (induction us arbitrary: st)
  case Nil then show ?case by simp
next
  case (Cons v us)
  then have "user_view u (fold (process_user e) us (process_user e v st)) =
             user_view u (process_user e v st)"
    by (simp add: process_user_ids)
  with Cons.prems show ?case by (simp add: view_other)
qed

lemma fold_ids:
  "map item_id (items (fst (fold (process_user e) us st))) = map item_id (items (fst st))"
  by (induction us arbitrary: st) (simp_all add: process_user_ids)

lemma fetch_pending_view:
  "fetch_pending d u =
   take 50 (filter (\<lambda>i. status i = Pending) (filter (\<lambda>i. user_id i = u) (items d)))"
  by (simp add: fetch_pending_def conj_commute)

lemma view_own:
  assumes "user_view u st = user_view u st'"
  shows "user_view u (process_user e u st) = user_view u (process_user e u st')"
proof -
  obtain d rs c where st: "st = (d, rs, c)" by (cases st)
  obtain d' rs' c' where st': "st' = (d', rs', c')" by (cases st')
  from assms have eq:
    "filter (\<lambda>i. user_id i = u) (items d) = filter (\<lambda>i. user_id i = u) (items d')"
    "filter (\<lambda>s. summary_user_id s = u) (summaries d) = filter (\<lambda>s. summary_user_id s = u) (summaries d')"
    "filter (\<lambda>x. userId x = u) rs = filter (\<lambda>x. userId x = u) rs'"
    "filter (\<lambda>ev. event_user ev = Some u) c = filter (\<lambda>ev. event_user ev = Some u) c'"
    "user_settings d = user_settings d'"
    by (simp_all add: user_view_def st st')
  have b: "fetch_pending d u = fetch_pending d' u" by (simp add: fetch_pending_view eq)
  have s: "summarize_for e d u (fetch_pending d' u) = summarize_for e d' u (fetch_pending d' u)"
    by (simp add: summarize_for_def customInstructions_of_def eq)
  show ?thesis
    by (simp add: st st' process_user_unfold Let_def user_view_def mark_filter_user b s eq
        new_summary_def new_entry_def summarize_events)
qed

lemma distinct_unique: "distinct (unique xs)"
  by (simp add: unique_def)

lemma set_unique: "set (unique xs) = set xs"
  by (simp add: unique_def)

lemma run_view_in:
  assumes pk: "distinct (map item_id (items d))" and dus: "distinct us" and u: "u \<in> set us"
  shows "user_view u (fold (process_user e) us (d, [], [])) =
         user_view u (process_user e u (d, [], []))"
proof -
  from u obtain pre post where us: "us = pre @ u # post" by (auto dest: split_list)
  with dus have npre: "u \<notin> set pre" and npost: "u \<notin> set post" by auto
  let ?S1 = "fold (process_user e) pre (d, [], [])"
  have ids1: "distinct (map item_id (items (fst ?S1)))" using pk by (simp add: fold_ids)
  have v1: "user_view u ?S1 = user_view u (d, [], [])" using pk npre by (simp add: view_fold)
  have ids2: "distinct (map item_id (items (fst (process_user e u ?S1))))"
    using ids1 by (simp add: process_user_ids)
  have "user_view u (fold (process_user e) us (d, [], [])) =
        user_view u (fold (process_user e) post (process_user e u ?S1))"
    by (simp add: us)
  also have "\<dots> = user_view u (process_user e u ?S1)" using ids2 npost by (rule view_fold)
  also have "\<dots> = user_view u (process_user e u (d, [], []))" using v1 by (rule view_own)
  finally show ?thesis .
qed

lemma fold_max_ge: "a \<le> fold max xs a \<and> (\<forall>x\<in>set xs. x \<le> fold max xs (a::nat))"
proof (induction xs arbitrary: a)
  case Nil then show ?case by simp
next
  case (Cons y ys)
  from Cons.IH[of "max y a"] show ?case by (auto simp: max_def split: if_splits)
qed

lemma fresh_id_gt: "i \<in> set rows \<Longrightarrow> item_id i < fresh_id rows"
  using fold_max_ge[of 0 "map item_id rows"] by (auto simp: fresh_id_def less_Suc_eq_le)

lemma save_message_distinct:
  "distinct (map item_id (items d)) \<Longrightarrow>
   distinct (map item_id (items (save_message now ws um ch msg d)))"
  by (auto simp: save_message_def Let_def split: option.splits dest: fresh_id_gt)

lemma fold_save_distinct:
  "distinct (map item_id (items d)) \<Longrightarrow>
   distinct (map item_id (items (fold (save_message now ws um ch) ms d)))"
  by (induction ms arbitrary: d) (simp_all add: save_message_distinct)

lemma poll_channels_distinct:
  "distinct (map item_id (items d)) \<Longrightarrow>
   distinct (map item_id (items (poll_channels e ws um chs d)))"
  by (induction e ws um chs d rule: poll_channels.induct)
     (auto simp: fold_save_distinct split: http.splits option.splits)

lemma poll_workspace_distinct:
  "poll_workspace e ws d = Some d' \<Longrightarrow> distinct (map item_id (items d)) \<Longrightarrow>
   distinct (map item_id (items d'))"
  by (auto simp: poll_workspace_def poll_channels_distinct
      split: if_splits http.splits option.splits)

lemma poll_workspaces_distinct:
  "poll_workspaces e wss d = Some d' \<Longrightarrow> distinct (map item_id (items d)) \<Longrightarrow>
   distinct (map item_id (items d'))"
  by (induction wss arbitrary: d) (auto split: option.splits dest: poll_workspace_distinct)

lemma fetchSlackMessages_distinct:
  "fetchSlackMessages e d = Some d' \<Longrightarrow> distinct (map item_id (items d)) \<Longrightarrow>
   distinct (map item_id (items d'))"
  by (auto simp: fetchSlackMessages_def split: if_splits dest: poll_workspaces_distinct)

lemma set_pending_users:
  "set (pending_users d) = user_id ` {i \<in> set (items d). status i = Pending}"
  by (auto simp: pending_users_def set_unique)

lemma pending_users_mem:
  "u \<in> set (pending_users d) \<longleftrightarrow>
   filter (\<lambda>i. status i = Pending \<and> user_id i = u) (items d) \<noteq> []"
  by (auto simp: set_pending_users filter_empty_conv)

lemma pending_users_batch: "u \<in> set (pending_users d) \<longleftrightarrow> fetch_pending d u \<noteq> []"
  by (simp add: pending_users_mem fetch_pending_def)

lemma distinct_pending_users: "distinct (pending_users d)"
  by (simp add: pending_users_def distinct_unique)

lemma run_unfold:
  assumes "cron_supabase (penv e)" "fetchSlackMessages e d0 = Some d" "\<not> users_query_fails e"
    and "pending_users d \<noteq> []"
  shows "runBatchSummarization e d0 =
         Some (fst (fold (process_user e) (pending_users d) (d, [], [])),
               Batch_report (length (fst (snd (fold (process_user e) (pending_users d) (d, [], [])))))
                 (fst (snd (fold (process_user e) (pending_users d) (d, [], [])))),
               snd (snd (fold (process_user e) (pending_users d) (d, [], []))))"
proof -
  have ne: "sort (map user_id (filter (\<lambda>i. status i = Pending) (items d))) \<noteq> []"
    using assms(4) by (auto simp: pending_users_def unique_def)
  show ?thesis using assms(1-3) ne
    by (simp add: runBatchSummarization_def Let_def pending_users_def split: prod.splits)
qed

text \<open>
  The run as one user sees it: when the user has pending items after the poll, the
  user's part of the final state is the user's part of the state that the user's own
  step produces from the store after the poll; the other users' steps do not touch it.
\<close>

lemma run_views:
  assumes cfg: "cron_supabase (penv e)"
    and poll: "fetchSlackMessages e d0 = Some d"
    and uq: "\<not> users_query_fails e"
    and pk0: "distinct (map item_id (items d0))"
    and ne: "pending_users d \<noteq> []"
  shows "\<exists>d2 details console.
      runBatchSummarization e d0 = Some (d2, Batch_report (length details) details, console) \<and>
      (\<forall>u. user_view u (d2, details, console) =
           (if u \<in> set (pending_users d) then user_view u (process_user e u (d, [], []))
            else user_view u (d, [], [])))"
proof -
  let ?S = "fold (process_user e) (pending_users d) (d, [], [])"
  have pk: "distinct (map item_id (items d))" using poll pk0 by (rule fetchSlackMessages_distinct)
  have run: "runBatchSummarization e d0 =
      Some (fst ?S, Batch_report (length (fst (snd ?S))) (fst (snd ?S)), snd (snd ?S))"
    using cfg poll uq ne by (rule run_unfold)
  have "user_view u ?S =
           (if u \<in> set (pending_users d) then user_view u (process_user e u (d, [], []))
            else user_view u (d, [], []))" for u
    using pk distinct_pending_users by (simp add: run_view_in view_fold)
  with run show ?thesis
    by (intro exI[of _ "fst ?S"] exI[of _ "fst (snd ?S)"] exI[of _ "snd (snd ?S)"]) simp
qed

lemma mark_own:
  assumes pk: "distinct (map item_id (items d))"
    and pend: "pend = filter (\<lambda>i. status i = Pending \<and> user_id i = u) (items d)"
  shows "mark_summarized (map item_id pend) (filter (\<lambda>i. user_id i = u) (items d)) =
         map (\<lambda>i. if status i = Pending then i\<lparr>status := Summarized\<rparr> else i)
           (filter (\<lambda>i. user_id i = u) (items d))"
  unfolding mark_summarized_def
proof (rule map_cong[OF refl])
  fix i assume i: "i \<in> set (filter (\<lambda>i. user_id i = u) (items d))"
  have "item_id i \<in> set (map item_id pend) \<longleftrightarrow> status i = Pending"
  proof
    assume "item_id i \<in> set (map item_id pend)"
    then obtain j where j: "j \<in> set pend" "item_id j = item_id i" by auto
    then have "j \<in> set (items d)" "status j = Pending" by (auto simp: pend)
    moreover from i have "i \<in> set (items d)" by simp
    ultimately have "j = i" using pk j(2) distinct_ids_eq by metis
    with \<open>status j = Pending\<close> show "status i = Pending" by simp
  next
    assume "status i = Pending"
    with i have "i \<in> set pend" by (simp add: pend)
    then show "item_id i \<in> set (map item_id pend)" by simp
  qed
  then show "(if item_id i \<in> set (map item_id pend) then i\<lparr>status := Summarized\<rparr> else i) =
             (if status i = Pending then i\<lparr>status := Summarized\<rparr> else i)" by simp
qed

lemma example_env_summary:
  "fst (summarize_for example_env d u batch) =
     JObj [(''summaryText'', JStr ''digest''), (''keyTopics'', JArr [])]"
proof -
  have ne: "digest_text \<noteq> []" by (simp add: digest_text_def)
  show ?thesis
    by (simp add: summarize_for_def generateSummary_def example_env_def example_penv_def
        example_JSON_parse_def ne Let_def)
qed

lemma no_workspace_poll: "workspaces d = [] \<Longrightarrow> fetchSlackMessages e d = Some d"
  by (simp add: fetchSlackMessages_def)

text \<open>
  C1. Let the poll return, the store be configured and the user query succeed. For a
  user with n pending items, 1 \<le> n \<le> 50, whose fetch, summarization, Summary insert and
  status update all succeed, the run returns a report, adds exactly one Summary row of
  that user, whose \<open>target_items\<close> are the ids of those pending items, turns exactly the
  pending items of that user to summarized, and reports the user once with processed
  count n. A user without pending items gets no Summary row, no status change and no
  report entry.
\<close>

theorem batch_summarizes_pending:
  assumes cfg: "cron_supabase (penv e)"
    and poll: "fetchSlackMessages e d0 = Some d"
    and uq: "\<not> users_query_fails e"
    and pk0: "distinct (map item_id (items d0))"
    and pend: "pend = filter (\<lambda>i. status i = Pending \<and> user_id i = u) (items d)"
    and n: "1 \<le> length pend" "length pend \<le> 50"
    and ai: "r = fst (summarize_for e d u pend)" "\<not> falsy r"
    and ok: "\<not> fetch_fails e u" "\<not> save_fails e u" "\<not> update_fails e u"
  shows "\<exists>d2 details console.
      runBatchSummarization e d0 = Some (d2, Batch_report (length details) details, console) \<and>
      filter (\<lambda>s. summary_user_id s = u) (summaries d2) =
        filter (\<lambda>s. summary_user_id s = u) (summaries d) @
        [\<lparr>summary_text = get_prop r ''summaryText'', target_items = map item_id pend,
          summary_user_id = u\<rparr>] \<and>
      filter (\<lambda>i. user_id i = u) (items d2) =
        map (\<lambda>i. if status i = Pending then i\<lparr>status := Summarized\<rparr> else i)
          (filter (\<lambda>i. user_id i = u) (items d)) \<and>
      filter (\<lambda>x. userId x = u) details =
        [\<lparr>userId = u, processed = length pend, summary_of = get_prop r ''summaryText''\<rparr>] \<and>
      (\<forall>w. filter (\<lambda>i. status i = Pending \<and> user_id i = w) (items d) = [] \<longrightarrow>
         filter (\<lambda>s. summary_user_id s = w) (summaries d2) =
           filter (\<lambda>s. summary_user_id s = w) (summaries d) \<and>
         filter (\<lambda>i. user_id i = w) (items d2) = filter (\<lambda>i. user_id i = w) (items d) \<and>
         filter (\<lambda>x. userId x = w) details = [])"
proof -
  have pk: "distinct (map item_id (items d))" using poll pk0 by (rule fetchSlackMessages_distinct)
  have pne: "pend \<noteq> []" using n by auto
  have uin: "u \<in> set (pending_users d)" using pne by (simp add: pending_users_mem pend)
  then have ne: "pending_users d \<noteq> []" by auto
  have batch: "fetch_pending d u = pend" using n by (simp add: fetch_pending_def pend)
  have step: "process_user e u (d, [], []) =
      (d\<lparr>summaries := summaries d @ [new_summary u r pend],
         items := mark_summarized (map item_id pend) (items d)\<rparr>, [new_entry u r pend],
       snd (summarize_for e d u pend))"
    using pne ai ok by (simp add: process_user_unfold batch Let_def)
  from run_views [OF cfg poll uq pk0 ne] obtain d2 details console where
    run: "runBatchSummarization e d0 = Some (d2, Batch_report (length details) details, console)"
    and views: "\<And>w. user_view w (d2, details, console) =
           (if w \<in> set (pending_users d) then user_view w (process_user e w (d, [], []))
            else user_view w (d, [], []))"
    by blast
  have own: "user_view u (d2, details, console) =
      (map (\<lambda>i. if status i = Pending then i\<lparr>status := Summarized\<rparr> else i)
          (filter (\<lambda>i. user_id i = u) (items d)),
       filter (\<lambda>s. summary_user_id s = u) (summaries d) @ [new_summary u r pend],
       [new_entry u r pend], [], user_settings d)"
    unfolding views step using uin
    by (simp add: user_view_def mark_filter_user mark_own[OF pk pend] new_summary_def
        new_entry_def summarize_events)
  have others: "\<forall>w. filter (\<lambda>i. status i = Pending \<and> user_id i = w) (items d) = [] \<longrightarrow>
      user_view w (d2, details, console) = user_view w (d, [], [])"
    by (simp add: views pending_users_mem)
  show ?thesis
    apply (rule exI[of _ d2], rule exI[of _ details], rule exI[of _ console])
    using run own others
    by (simp add: user_view_def new_summary_def new_entry_def)
qed

theorem batch_summarizes_pending_witness:
  "\<exists>d2 details console.
      runBatchSummarization example_env batch_db =
        Some (d2, Batch_report (length details) details, console) \<and>
      filter (\<lambda>s. summary_user_id s = 1) (summaries d2) =
        [\<lparr>summary_text = JStr ''digest'', target_items = [1, 2, 3], summary_user_id = 1\<rparr>] \<and>
      map status (filter (\<lambda>i. user_id i = 1) (items d2)) = [Summarized, Summarized, Summarized] \<and>
      filter (\<lambda>x. userId x = 1) details =
        [\<lparr>userId = 1, processed = 3, summary_of = JStr ''digest''\<rparr>] \<and>
      filter (\<lambda>s. summary_user_id s = 2) (summaries d2) = [] \<and>
      map status (filter (\<lambda>i. user_id i = 2) (items d2)) = [Summarized] \<and>
      filter (\<lambda>x. userId x = 2) details = []"
proof -
  let ?pend = "filter (\<lambda>i. status i = Pending \<and> user_id i = 1) (items batch_db)"
  let ?r = "fst (summarize_for example_env batch_db 1 ?pend)"
  have pend: "?pend = [slack_item 1 1 Pending 900000001 ''deploy failed'',
               slack_item 2 1 Pending 900000002 ''lunch plans'',
               slack_item 3 1 Pending 900000003 ''contract signed'']"
    by (simp add: batch_db_def slack_item_def)
  have h0: "fetchSlackMessages example_env batch_db = Some batch_db"
    by (rule no_workspace_poll) (simp add: batch_db_def)
  have h1: "\<not> users_query_fails example_env" by (simp add: example_env_def)
  have h2: "distinct (map item_id (items batch_db))" by (simp add: batch_db_def slack_item_def)
  have h3: "1 \<le> length ?pend" "length ?pend \<le> 50" unfolding pend by simp_all
  have h4: "\<not> falsy ?r" by (simp add: example_env_summary)
  have h5: "\<not> fetch_fails example_env 1" "\<not> save_fails example_env 1" "\<not> update_fails example_env 1"
    by (simp_all add: example_env_def)
  have none2: "filter (\<lambda>i. status i = Pending \<and> user_id i = 2) (items batch_db) = []"
    by (simp add: batch_db_def slack_item_def)
  from batch_summarizes_pending [OF example_env_configured h0 h1 h2 refl h3 refl h4 h5]
  obtain d2 details console where
    run: "runBatchSummarization example_env batch_db = Some (d2, Batch_report (length details) details, console)"
    and s: "filter (\<lambda>s. summary_user_id s = 1) (summaries d2) =
        filter (\<lambda>s. summary_user_id s = 1) (summaries batch_db) @
        [\<lparr>summary_text = get_prop ?r ''summaryText'', target_items = map item_id ?pend,
          summary_user_id = 1\<rparr>]"
    and i: "filter (\<lambda>i. user_id i = 1) (items d2) =
        map (\<lambda>i. if status i = Pending then i\<lparr>status := Summarized\<rparr> else i)
          (filter (\<lambda>i. user_id i = 1) (items batch_db))"
    and r: "filter (\<lambda>x. userId x = 1) details =
        [\<lparr>userId = 1, processed = length ?pend, summary_of = get_prop ?r ''summaryText''\<rparr>]"
    and o: "\<forall>w. filter (\<lambda>i. status i = Pending \<and> user_id i = w) (items batch_db) = [] \<longrightarrow>
         filter (\<lambda>s. summary_user_id s = w) (summaries d2) =
           filter (\<lambda>s. summary_user_id s = w) (summaries batch_db) \<and>
         filter (\<lambda>i. user_id i = w) (items d2) = filter (\<lambda>i. user_id i = w) (items batch_db) \<and>
         filter (\<lambda>x. userId x = w) details = []"
    by blast
  from o none2 have o2:
    "filter (\<lambda>s. summary_user_id s = 2) (summaries d2) =
       filter (\<lambda>s. summary_user_id s = 2) (summaries batch_db)"
    "filter (\<lambda>i. user_id i = 2) (items d2) = filter (\<lambda>i. user_id i = 2) (items batch_db)"
    "filter (\<lambda>x. userId x = 2) details = []" by blast+
  have s': "filter (\<lambda>s. summary_user_id s = 1) (summaries d2) =
        [\<lparr>summary_text = JStr ''digest'', target_items = [1, 2, 3], summary_user_id = 1\<rparr>]"
    unfolding s pend by (simp add: example_env_summary batch_db_def slack_item_def)
  have i': "map status (filter (\<lambda>i. user_id i = 1) (items d2)) = [Summarized, Summarized, Summarized]"
    unfolding i by (simp add: batch_db_def slack_item_def)
  have r': "filter (\<lambda>x. userId x = 1) details =
        [\<lparr>userId = 1, processed = 3, summary_of = JStr ''digest''\<rparr>]"
    unfolding r pend by (simp add: example_env_summary)
  have o2': "filter (\<lambda>s. summary_user_id s = 2) (summaries d2) = []"
     "map status (filter (\<lambda>i. user_id i = 2) (items d2)) = [Summarized]"
    unfolding o2 by (simp_all add: batch_db_def slack_item_def)
  show ?thesis
    by (rule exI[of _ d2], rule exI[of _ details], rule exI[of _ console])
       (intro conjI run s' i' r' o2' o2(3))
qed

text \<open>
  C3. In any state of the loop whose items have distinct ids, the step for user B leaves
  an item of another user A out of the fetched batch, every Summary row that the step
  adds belongs to B and does not reference the item, and the items of A are the same
  after the step, status included.
\<close>

theorem batch_isolation:
  assumes pk: "distinct (map item_id (items d))"
    and ab: "A \<noteq> B"
    and i: "i \<in> set (items d)" "user_id i = A"
  shows "i \<notin> set (fetch_pending d B) \<and>
     take (length (summaries d)) (summaries (fst (process_user e B (d, rs, c)))) = summaries d \<and>
     (\<forall>s \<in> set (drop (length (summaries d)) (summaries (fst (process_user e B (d, rs, c))))).
        summary_user_id s = B \<and> item_id i \<notin> set (target_items s)) \<and>
     filter (\<lambda>j. user_id j = A) (items (fst (process_user e B (d, rs, c)))) =
       filter (\<lambda>j. user_id j = A) (items d)"
proof -
  have notin: "item_id i \<notin> set (map item_id (fetch_pending d B))"
    using batch_ids_owner[OF pk i(1)] i(2) ab by blast
  then have a: "i \<notin> set (fetch_pending d B)" by auto
  have v: "user_view A (process_user e B (d, rs, c)) = user_view A (d, rs, c)"
    using pk ab by (simp add: view_other)
  then have it: "filter (\<lambda>j. user_id j = A) (items (fst (process_user e B (d, rs, c)))) =
       filter (\<lambda>j. user_id j = A) (items d)"
    by (simp add: user_view_def)
  have s: "take (length (summaries d)) (summaries (fst (process_user e B (d, rs, c)))) = summaries d \<and>
     (\<forall>s \<in> set (drop (length (summaries d)) (summaries (fst (process_user e B (d, rs, c))))).
        summary_user_id s = B \<and> item_id i \<notin> set (target_items s))"
    using notin by (simp add: process_user_unfold Let_def new_summary_def)
  from a s it show ?thesis by blast
qed

theorem batch_isolation_witness:
  "slack_item 1 1 Pending 900000001 ''deploy failed'' \<notin> set (fetch_pending two_user_db 2) \<and>
   map target_items (summaries (fst (process_user example_env 2 (two_user_db, [], [])))) = [[2]] \<and>
   filter (\<lambda>j. user_id j = 1) (items (fst (process_user example_env 2 (two_user_db, [], [])))) =
     [slack_item 1 1 Pending 900000001 ''deploy failed'']"
proof -
  have pk: "distinct (map item_id (items two_user_db))" by (simp add: two_user_db_def slack_item_def)
  have i: "slack_item 1 1 Pending 900000001 ''deploy failed'' \<in> set (items two_user_db)"
    "user_id (slack_item 1 1 Pending 900000001 ''deploy failed'') = 1"
    by (simp_all add: two_user_db_def slack_item_def)
  have ab: "(1::nat) \<noteq> 2" by simp
  have b: "fetch_pending two_user_db 2 = [slack_item 2 2 Pending 900000002 ''lunch plans'']"
    by (simp add: fetch_pending_def two_user_db_def slack_item_def)
  have t: "map target_items (summaries (fst (process_user example_env 2 (two_user_db, [], [])))) = [[2]]"
    by (simp add: process_user_unfold Let_def b example_env_summary new_summary_def)
       (simp add: example_env_def two_user_db_def slack_item_def)
  from batch_isolation [OF pk ab i, of example_env "[]" "[]"] t
  show ?thesis by (simp add: two_user_db_def slack_item_def)
qed

lemma fetch_pending_unchanged:
  "filter (\<lambda>i. user_id i = u) (items d2) = filter (\<lambda>i. user_id i = u) (items d) \<Longrightarrow>
   fetch_pending d2 u = fetch_pending d u"
  by (simp add: fetch_pending_view)

lemma failing_env_summary:
  "summarize_for (e\<lparr>update_fails := f\<rparr>) d u b = summarize_for e d u b"
  "summarize_for (e\<lparr>save_fails := f\<rparr>) d u b = summarize_for e d u b"
  by (simp_all add: summarize_for_def)

lemma batch_db_batch:
  "fetch_pending batch_db 1 =
     [slack_item 1 1 Pending 900000001 ''deploy failed'',
      slack_item 2 1 Pending 900000002 ''lunch plans'',
      slack_item 3 1 Pending 900000003 ''contract signed'']"
  by (simp add: fetch_pending_def batch_db_def slack_item_def)

text \<open>
  C7. Let the poll return, the store be configured and the user query succeed. For a
  user whose batch is summarized and whose Summary row is inserted, a failing status
  update is written to the console and nothing is undone: the run returns a report, the
  Summary row with the ids of the batch is there, the items of the user are as they were
  and the report has the entry of the user.
\<close>

theorem update_failure_keeps_summary:
  assumes cfg: "cron_supabase (penv e)"
    and poll: "fetchSlackMessages e d0 = Some d"
    and uq: "\<not> users_query_fails e"
    and pk0: "distinct (map item_id (items d0))"
    and batch: "batch = fetch_pending d u" "batch \<noteq> []"
    and ai: "r = fst (summarize_for e d u batch)" "\<not> falsy r"
    and ok: "\<not> fetch_fails e u" "\<not> save_fails e u"
    and upd: "update_fails e u"
  shows "\<exists>d2 details console.
      runBatchSummarization e d0 = Some (d2, Batch_report (length details) details, console) \<and>
      filter (\<lambda>s. summary_user_id s = u) (summaries d2) =
        filter (\<lambda>s. summary_user_id s = u) (summaries d) @
        [\<lparr>summary_text = get_prop r ''summaryText'', target_items = map item_id batch,
          summary_user_id = u\<rparr>] \<and>
      filter (\<lambda>i. user_id i = u) (items d2) = filter (\<lambda>i. user_id i = u) (items d) \<and>
      filter (\<lambda>x. userId x = u) details =
        [\<lparr>userId = u, processed = length batch, summary_of = get_prop r ''summaryText''\<rparr>] \<and>
      filter (\<lambda>ev. event_user ev = Some u) console = [Scheduler_update_error u]"
proof -
  have uin: "u \<in> set (pending_users d)" using batch by (simp add: pending_users_batch)
  then have ne: "pending_users d \<noteq> []" by auto
  have step: "process_user e u (d, [], []) =
      (d\<lparr>summaries := summaries d @ [new_summary u r batch]\<rparr>, [new_entry u r batch],
       snd (summarize_for e d u batch) @ [Scheduler_update_error u])"
    using batch ai ok upd by (simp add: process_user_unfold Let_def)
  from run_views [OF cfg poll uq pk0 ne] obtain d2 details console where
    run: "runBatchSummarization e d0 = Some (d2, Batch_report (length details) details, console)"
    and views: "\<And>w. user_view w (d2, details, console) =
           (if w \<in> set (pending_users d) then user_view w (process_user e w (d, [], []))
            else user_view w (d, [], []))"
    by blast
  have own: "user_view u (d2, details, console) =
      (filter (\<lambda>i. user_id i = u) (items d),
       filter (\<lambda>s. summary_user_id s = u) (summaries d) @ [new_summary u r batch],
       [new_entry u r batch], [Scheduler_update_error u], user_settings d)"
    unfolding views step using uin
    by (simp add: user_view_def new_summary_def new_entry_def summarize_events)
  show ?thesis
    apply (rule exI[of _ d2], rule exI[of _ details], rule exI[of _ console])
    using run own by (simp add: user_view_def new_summary_def new_entry_def)
qed

theorem update_failure_keeps_summary_witness:
  "\<exists>d2 details console.
      runBatchSummarization update_fails_env batch_db =
        Some (d2, Batch_report (length details) details, console) \<and>
      filter (\<lambda>s. summary_user_id s = 1) (summaries d2) =
        [\<lparr>summary_text = JStr ''digest'', target_items = [1, 2, 3], summary_user_id = 1\<rparr>] \<and>
      map status (filter (\<lambda>i. user_id i = 1) (items d2)) = [Pending, Pending, Pending] \<and>
      filter (\<lambda>x. userId x = 1) details =
        [\<lparr>userId = 1, processed = 3, summary_of = JStr ''digest''\<rparr>] \<and>
      filter (\<lambda>ev. event_user ev = Some 1) console = [Scheduler_update_error 1]"
proof -
  let ?b = "fetch_pending batch_db 1"
  let ?r = "fst (summarize_for update_fails_env batch_db 1 ?b)"
  have r: "fst (summarize_for update_fails_env d u b) =
      JObj [(''summaryText'', JStr ''digest''), (''keyTopics'', JArr [])]" for d u b
    by (simp add: update_fails_env_def failing_env_summary example_env_summary)
  have h0: "cron_supabase (penv update_fails_env)"
    using example_env_configured by (simp add: update_fails_env_def)
  have h1: "fetchSlackMessages update_fails_env batch_db = Some batch_db"
    by (rule no_workspace_poll) (simp add: batch_db_def)
  have h2: "\<not> users_query_fails update_fails_env"
    by (simp add: update_fails_env_def example_env_def)
  have h3: "distinct (map item_id (items batch_db))" by (simp add: batch_db_def slack_item_def)
  have h4: "?b \<noteq> []" unfolding batch_db_batch by simp
  have h5: "\<not> falsy ?r" unfolding r by simp
  have h6: "\<not> fetch_fails update_fails_env 1" "\<not> save_fails update_fails_env 1"
    "update_fails update_fails_env 1"
    by (simp_all add: update_fails_env_def example_env_def)
  from update_failure_keeps_summary [OF h0 h1 h2 h3 refl h4 refl h5 h6]
  obtain d2 details console where
    run: "runBatchSummarization update_fails_env batch_db =
            Some (d2, Batch_report (length details) details, console)"
    and s: "filter (\<lambda>s. summary_user_id s = 1) (summaries d2) =
        filter (\<lambda>s. summary_user_id s = 1) (summaries batch_db) @
        [\<lparr>summary_text = get_prop ?r ''summaryText'', target_items = map item_id ?b,
          summary_user_id = 1\<rparr>]"
    and i: "filter (\<lambda>i. user_id i = 1) (items d2) = filter (\<lambda>i. user_id i = 1) (items batch_db)"
    and e: "filter (\<lambda>x. userId x = 1) details =
        [\<lparr>userId = 1, processed = length ?b, summary_of = get_prop ?r ''summaryText''\<rparr>]"
    and c: "filter (\<lambda>ev. event_user ev = Some 1) console = [Scheduler_update_error 1]"
    by blast
  have s': "filter (\<lambda>s. summary_user_id s = 1) (summaries d2) =
        [\<lparr>summary_text = JStr ''digest'', target_items = [1, 2, 3], summary_user_id = 1\<rparr>]"
    unfolding s r batch_db_batch by (simp add: batch_db_def slack_item_def)
  have i': "map status (filter (\<lambda>i. user_id i = 1) (items d2)) = [Pending, Pending, Pending]"
    unfolding i by (simp add: batch_db_def slack_item_def)
  have e': "filter (\<lambda>x. userId x = 1) details =
        [\<lparr>userId = 1, processed = 3, summary_of = JStr ''digest''\<rparr>]"
    unfolding e r batch_db_batch by simp
  show ?thesis
    by (rule exI[of _ d2], rule exI[of _ details], rule exI[of _ console])
       (intro conjI run s' i' e' c)
qed

text \<open>
  C10. Let the poll return, the store be configured and the user query succeed. For a
  user whose batch is summarized and whose Summary insert fails, the run returns a
  report in which the user has no entry (so the user is not counted in
  \<open>totalUsersProcessed\<close>, the length of the report), the user has no new Summary row, the
  items of the user are as they were, so the next fetch gives the same batch, and the
  console has the save error for the user.
\<close>

theorem save_failure_skips_user:
  assumes cfg: "cron_supabase (penv e)"
    and poll: "fetchSlackMessages e d0 = Some d"
    and uq: "\<not> users_query_fails e"
    and pk0: "distinct (map item_id (items d0))"
    and batch: "batch = fetch_pending d u" "batch \<noteq> []"
    and ai: "\<not> falsy (fst (summarize_for e d u batch))"
    and ok: "\<not> fetch_fails e u"
    and sv: "save_fails e u"
  shows "\<exists>d2 details console.
      runBatchSummarization e d0 = Some (d2, Batch_report (length details) details, console) \<and>
      filter (\<lambda>s. summary_user_id s = u) (summaries d2) =
        filter (\<lambda>s. summary_user_id s = u) (summaries d) \<and>
      filter (\<lambda>i. user_id i = u) (items d2) = filter (\<lambda>i. user_id i = u) (items d) \<and>
      fetch_pending d2 u = batch \<and>
      filter (\<lambda>x. userId x = u) details = [] \<and>
      filter (\<lambda>ev. event_user ev = Some u) console = [Scheduler_save_error u]"
proof -
  have uin: "u \<in> set (pending_users d)" using batch by (simp add: pending_users_batch)
  then have ne: "pending_users d \<noteq> []" by auto
  have step: "process_user e u (d, [], []) =
      (d, [], snd (summarize_for e d u batch) @ [Scheduler_save_error u])"
    using batch ai ok sv by (simp add: process_user_unfold Let_def)
  from run_views [OF cfg poll uq pk0 ne] obtain d2 details console where
    run: "runBatchSummarization e d0 = Some (d2, Batch_report (length details) details, console)"
    and views: "\<And>w. user_view w (d2, details, console) =
           (if w \<in> set (pending_users d) then user_view w (process_user e w (d, [], []))
            else user_view w (d, [], []))"
    by blast
  have own: "user_view u (d2, details, console) =
      (filter (\<lambda>i. user_id i = u) (items d),
       filter (\<lambda>s. summary_user_id s = u) (summaries d),
       [], [Scheduler_save_error u], user_settings d)"
    unfolding views step using uin by (simp add: user_view_def summarize_events)
  then have it: "filter (\<lambda>i. user_id i = u) (items d2) = filter (\<lambda>i. user_id i = u) (items d)"
    by (simp add: user_view_def)
  then have fp: "fetch_pending d2 u = batch" unfolding batch by (rule fetch_pending_unchanged)
  show ?thesis
    apply (rule exI[of _ d2], rule exI[of _ details], rule exI[of _ console])
    using run own fp by (simp add: user_view_def)
qed

theorem save_failure_skips_user_witness:
  "\<exists>d2 details console.
      runBatchSummarization save_fails_env batch_db =
        Some (d2, Batch_report (length details) details, console) \<and>
      filter (\<lambda>s. summary_user_id s = 1) (summaries d2) = [] \<and>
      map status (filter (\<lambda>i. user_id i = 1) (items d2)) = [Pending, Pending, Pending] \<and>
      filter (\<lambda>x. userId x = 1) details = [] \<and>
      filter (\<lambda>ev. event_user ev = Some 1) console = [Scheduler_save_error 1]"
proof -
  let ?b = "fetch_pending batch_db 1"
  have r: "fst (summarize_for save_fails_env d u b) =
      JObj [(''summaryText'', JStr ''digest''), (''keyTopics'', JArr [])]" for d u b
    by (simp add: save_fails_env_def failing_env_summary example_env_summary)
  have h0: "cron_supabase (penv save_fails_env)"
    using example_env_configured by (simp add: save_fails_env_def)
  have h1: "fetchSlackMessages save_fails_env batch_db = Some batch_db"
    by (rule no_workspace_poll) (simp add: batch_db_def)
  have h2: "\<not> users_query_fails save_fails_env"
    by (simp add: save_fails_env_def example_env_def)
  have h3: "distinct (map item_id (items batch_db))" by (simp add: batch_db_def slack_item_def)
  have h4: "?b \<noteq> []" unfolding batch_db_batch by simp
  have h5: "\<not> falsy (fst (summarize_for save_fails_env batch_db 1 ?b))" unfolding r by simp
  have h6: "\<not> fetch_fails save_fails_env 1" "save_fails save_fails_env 1"
    by (simp_all add: save_fails_env_def example_env_def)
  from save_failure_skips_user [OF h0 h1 h2 h3 refl h4 h5 h6]
  obtain d2 details console where
    run: "runBatchSummarization save_fails_env batch_db =
            Some (d2, Batch_report (length details) details, console)"
    and s: "filter (\<lambda>s. summary_user_id s = 1) (summaries d2) =
        filter (\<lambda>s. summary_user_id s = 1) (summaries batch_db)"
    and i: "filter (\<lambda>i. user_id i = 1) (items d2) = filter (\<lambda>i. user_id i = 1) (items batch_db)"
    and e: "filter (\<lambda>x. userId x = 1) details = []"
    and c: "filter (\<lambda>ev. event_user ev = Some 1) console = [Scheduler_save_error 1]"
    by blast
  have s': "filter (\<lambda>s. summary_user_id s = 1) (summaries d2) = []"
    unfolding s by (simp add: batch_db_def)
  have i': "map status (filter (\<lambda>i. user_id i = 1) (items d2)) = [Pending, Pending, Pending]"
    unfolding i by (simp add: batch_db_def slack_item_def)
  show ?thesis
    by (rule exI[of _ d2], rule exI[of _ details], rule exI[of _ console])
       (intro conjI run s' i' e c)
qed

text \<open>
  C9, as the code has it. The fetched batch of a user is the beginning of the user's
  pending rows in the order in which the store returns them, and it has 50 rows or, when
  the user has fewer pending rows, all of them. The query has no \<open>order\<close> clause.
\<close>

theorem fetch_batch_is_store_prefix:
  "prefix (fetch_pending d u) (filter (\<lambda>i. status i = Pending \<and> user_id i = u) (items d)) \<and>
   length (fetch_pending d u) =
     min 50 (length (filter (\<lambda>i. status i = Pending \<and> user_id i = u) (items d)))"
  by (simp add: fetch_pending_def take_is_prefix min.commute)

text \<open>
  C9, as stated, fails on \<open>newest_first_db\<close>: the batch of user 1 has the item created at
  20 before the item created at 10.
\<close>

theorem fetch_batch_not_oldest_first:
  "map created_at (fetch_pending newest_first_db 1) = [20, 10] \<and>
   \<not> sorted (map created_at (fetch_pending newest_first_db 1))"
  by (simp add: fetch_pending_def newest_first_db_def slack_item_def)

section \<open>Source poller: pagination\<close>

lemma returns_not_always_429:
  assumes "list_channels api parse_int n cursor allChannels sleeps = Some y"
  shows "\<exists>k c. api k c \<noteq> Http_response 429 ra b"
proof (rule list_channels.raw_induct
    [where P = "\<lambda>api p n c a s y. \<exists>k c. api k c \<noteq> Http_response 429 ra b", OF _ assms])
  fix f api p n c a s y
  assume IH: "\<And>api p n c a s y. f api p n c a s = Some y \<Longrightarrow>
                \<exists>k c. api k c \<noteq> Http_response 429 ra b"
    and body: "(case api n c of
        Fetch_throws \<Rightarrow> Some (a, s)
      | Http_response st retryAfter body \<Rightarrow>
          if st = 429
          then f api p (Suc n) c a (s @ [waitTime p retryAfter])
          else
            (case body of
               None \<Rightarrow> Some (a, s)
             | Some channelsData \<Rightarrow>
                 if \<not> channels_ok channelsData then Some (a, s)
                 else
                   let allChannels' =
                         (case channels channelsData of
                            None \<Rightarrow> a
                          | Some cs \<Rightarrow> a @ cs)
                   in (case next_cursor channelsData of
                         None \<Rightarrow> Some (allChannels', s)
                       | Some c' \<Rightarrow>
                           if c' = [] then Some (allChannels', s)
                           else f api p (Suc n) c' allChannels' (s @ [Some 100])))) = Some y"
  show "\<exists>k c. api k c \<noteq> Http_response 429 ra b"
  proof (cases "api n c = Http_response 429 ra b")
    case True
    with body have "f api p (Suc n) c a (s @ [waitTime p ra]) = Some y" by simp
    then show ?thesis by (rule IH)
  next
    case False
    then show ?thesis by blast
  qed
qed

lemma always_429_never_returns:
  assumes "\<And>n cursor. api n cursor = Http_response 429 ra b"
  shows "list_channels api parse_int n cursor allChannels sleeps = None"
proof (cases "list_channels api parse_int n cursor allChannels sleeps")
  case None then show ?thesis .
next
  case (Some y)
  from returns_not_always_429[OF Some, of ra b] assms show ?thesis by simp
qed

lemma rate_limited_list:
  "list_channels (conversations_list rate_limited_env t) p n c a s = None"
  by (rule always_429_never_returns[of _ None None]) (simp add: rate_limited_env_def)

lemma rate_limited_workspace: "poll_workspace rate_limited_env example_workspace d = None"
proof -
  have tok: "access_token example_workspace \<noteq> []" by (simp add: example_workspace_def)
  have ul: "users_list rate_limited_env t =
      Http_response 200 None (Some \<lparr>users_ok = True, members = Some []\<rparr>)" for t
    by (simp add: rate_limited_env_def example_env_def)
  show ?thesis by (simp add: poll_workspace_def tok ul rate_limited_list)
qed

lemma rate_limited_poll: "fetchSlackMessages rate_limited_env one_workspace_db = None"
proof -
  have sb: "slack_supabase (penv rate_limited_env)"
    by (simp add: slack_supabase_def rate_limited_env_def example_env_def example_penv_def)
  have wq: "\<not> workspaces_query_fails rate_limited_env"
    by (simp add: rate_limited_env_def example_env_def)
  have ws: "workspaces one_workspace_db = [example_workspace]" by (simp add: one_workspace_db_def)
  show ?thesis by (simp add: fetchSlackMessages_def sb wq ws rate_limited_workspace)
qed

text \<open>
  C6. With a provider that answers every \<open>conversations.list\<close> request with status 429,
  the pagination loop sleeps and sends the request again, for ever: the loop, the poll
  and the batch run that starts with the poll never return.
\<close>

theorem pagination_never_returns_on_429:
  "list_channels (conversations_list rate_limited_env (access_token example_workspace))
     (parseInt rate_limited_env) 0 [] [] [] = None \<and>
   fetchSlackMessages rate_limited_env one_workspace_db = None \<and>
   runBatchSummarization rate_limited_env one_workspace_db = None"
proof -
  have cfg: "cron_supabase (penv rate_limited_env)"
    using example_env_configured by (simp add: rate_limited_env_def)
  show ?thesis by (simp add: rate_limited_list rate_limited_poll runBatchSummarization_def cfg)
qed

section \<open>Source poller: deduplication\<close>

lemma single_None: "single xs = None \<longleftrightarrow> length xs \<noteq> 1"
  by (cases xs rule: single.cases) auto

lemma existing_item_rows: "existing_item d ts ch = single (key_rows d ts ch)"
  by (simp add: existing_item_def key_rows_def)

lemma covers_refl: "covers d d"
  by (simp add: covers_def)

lemma covers_trans: "covers a b \<Longrightarrow> covers b c \<Longrightarrow> covers a c"
  by (simp add: covers_def)

lemma settles_id: "keys_unique d \<Longrightarrow> settles (\<lambda>x. x) d"
  by (simp add: settles_def covers_refl)

lemma settles_unique: "settles f d \<Longrightarrow> keys_unique (f d)"
  by (simp add: settles_def)

lemma settles_cong: "(\<And>x. f x = g x) \<Longrightarrow> settles g d \<Longrightarrow> settles f d"
  by (simp add: settles_def)

lemma settles_comp:
  assumes f: "settles f d" and g: "settles g (f d)"
  shows "settles (\<lambda>x. g (f x)) d"
proof -
  have "g (f d') = d'" if u: "keys_unique d'" and c: "covers (g (f d)) d'" for d'
  proof -
    from g have "covers (f d) (g (f d))" by (simp add: settles_def)
    from this c have "covers (f d) d'" by (rule covers_trans)
    with f u have "f d' = d'" by (simp add: settles_def)
    moreover from g u c have "g d' = d'" by (simp add: settles_def)
    ultimately show ?thesis by simp
  qed
  moreover from f g have "covers d (g (f d))" by (auto simp: settles_def intro: covers_trans)
  ultimately show ?thesis using f g by (simp add: settles_def)
qed

lemma unique_zero_or_one:
  "keys_unique d \<Longrightarrow> length (key_rows d ts ch) \<noteq> 1 \<Longrightarrow> key_rows d ts ch = []"
proof -
  assume "keys_unique d" and n: "length (key_rows d ts ch) \<noteq> 1"
  then have "length (key_rows d ts ch) \<le> 1" by (simp add: keys_unique_def)
  with n have "length (key_rows d ts ch) = 0" by arith
  then show ?thesis by simp
qed

lemma settles_save:
  assumes u: "keys_unique d"
  shows "settles (save_message now ws um ch m) d"
proof -
  let ?ts = "msg_ts m" and ?c = "channel_id ch"
  let ?author = "case msg_user m of None \<Rightarrow> [] | Some a \<Rightarrow> a"
  define pass where "pass \<longleftrightarrow>
    \<not> truthy (msg_subtype m) \<and> truthy (msg_user m) \<and> \<not> truthy (msg_bot_id m) \<and>
    \<not> (case um ?author of None \<Rightarrow> False | Some ui \<Rightarrow> info_is_bot ui)"
  define row where "row = (\<lambda>d'::db.
    \<lparr>item_id = fresh_id (items d'), source_type = Slack, content = msg_text m,
     meta_data =
       [(''user'', ?author),
        (''user_name'', case um ?author of None \<Rightarrow> ?author | Some ui \<Rightarrow> info_name ui),
        (''user_avatar'', case um ?author of None \<Rightarrow> [] | Some ui \<Rightarrow> info_avatar ui),
        (''channel'', ?c),
        (''channel_name'', or_else (channel_name ch) ''DM''),
        (''ts'', ?ts),
        (''team'', team_id ws)],
     status = Pending, created_at = now, user_id = ws_user_id ws\<rparr>)"
  have filtered: "save_message now ws um ch m d' = d'" if "\<not> pass" for d'
    using that by (auto simp: save_message_def pass_def Let_def)
  have passed: "save_message now ws um ch m d' =
      (if length (key_rows d' ?ts ?c) = 1 then d' else d'\<lparr>items := items d' @ [row d']\<rparr>)"
    if pass for d'
  proof (cases "length (key_rows d' ?ts ?c) = 1")
    case True
    then have "single (key_rows d' ?ts ?c) \<noteq> None" by (simp add: single_None)
    then obtain x where "single (key_rows d' ?ts ?c) = Some x" by auto
    with True that show ?thesis
      by (simp add: save_message_def pass_def Let_def existing_item_rows)
  next
    case False
    then have "single (key_rows d' ?ts ?c) = None" by (simp add: single_None)
    with False that show ?thesis
      by (simp add: save_message_def pass_def Let_def existing_item_rows row_def)
  qed
  have rts: "map_of (meta_data (row d')) ''ts'' = Some ?ts" for d' by (simp add: row_def)
  have rch: "map_of (meta_data (row d')) ''channel'' = Some ?c" for d' by (simp add: row_def)
  show ?thesis
  proof (cases pass)
    case False
    with u show ?thesis by (simp add: settles_def filtered covers_refl)
  next
    case True
    show ?thesis
    proof (cases "length (key_rows d ?ts ?c) = 1")
      case one: True
      have "save_message now ws um ch m d' = d'" if "covers d d'" for d'
        using that one by (simp add: passed[OF True] covers_def)
      with u one show ?thesis by (simp add: settles_def passed[OF True] covers_refl)
    next
      case False
      with u have zero: "key_rows d ?ts ?c = []" by (rule unique_zero_or_one)
      have new: "save_message now ws um ch m d = d\<lparr>items := items d @ [row d]\<rparr>"
        using False by (simp add: passed[OF True])
      have rows: "key_rows (save_message now ws um ch m d) ts c =
          key_rows d ts c @ (if ts = ?ts \<and> c = ?c then [row d] else [])" for ts c
        using rts[of d] rch[of d] by (auto simp: new key_rows_def)
      have one: "length (key_rows (save_message now ws um ch m d) ?ts ?c) = 1"
        by (simp add: rows zero)
      have ku: "keys_unique (save_message now ws um ch m d)"
        using u zero unfolding keys_unique_def rows by auto
      have cv: "covers d (save_message now ws um ch m d)"
        using zero unfolding covers_def rows by auto
      have "save_message now ws um ch m d' = d'"
        if "covers (save_message now ws um ch m d) d'" for d'
        using that one by (simp add: passed[OF True] covers_def)
      with ku cv show ?thesis by (simp add: settles_def new)
    qed
  qed
qed

lemma settles_fold:
  "keys_unique d \<Longrightarrow> settles (fold (save_message now ws um ch) ms) d"
proof (induction ms arbitrary: d)
  case Nil
  then show ?case by (simp add: settles_id)
next
  case (Cons m ms)
  have s1: "settles (save_message now ws um ch m) d" using Cons.prems by (rule settles_save)
  have s2: "settles (fold (save_message now ws um ch) ms) (save_message now ws um ch m d)"
    using settles_unique[OF s1] by (rule Cons.IH)
  from settles_comp[OF s1 s2] show ?case by simp
qed

lemma settles_channels:
  "keys_unique d \<Longrightarrow> settles (poll_channels e ws um chs) d"
proof (induction chs arbitrary: d)
  case Nil
  then show ?case by (simp add: settles_id)
next
  case (Cons ch chs)
  note IH = Cons.IH[OF Cons.prems]
  note ID = settles_id[OF Cons.prems]
  show ?case
  proof (cases "is_archived ch")
    case True
    then show ?thesis using IH by simp
  next
    case live: False
    show ?thesis
    proof (cases "conversations_history e (access_token ws) (channel_id ch)")
      case Fetch_throws
      show ?thesis by (rule settles_cong[OF _ ID]) (simp add: live Fetch_throws)
    next
      case (Http_response st ra body)
      show ?thesis
      proof (cases "st = 429")
        case True
        show ?thesis by (rule settles_cong[OF _ IH]) (simp add: live Http_response True)
      next
        case ok: False
        show ?thesis
        proof (cases body)
          case None
          show ?thesis by (rule settles_cong[OF _ ID]) (simp add: live Http_response ok None)
        next
          case (Some h)
          show ?thesis
          proof (cases "history_ok h \<and> messages h \<noteq> None")
            case False
            show ?thesis
              by (rule settles_cong[OF _ IH])
                 (use False in \<open>auto simp: live Http_response ok Some split: option.splits\<close>)
          next
            case True
            then obtain ms where ms: "messages h = Some ms" and hok: "history_ok h" by auto
            have s1: "settles (fold (save_message (db_now e) ws um ch) ms) d"
              using Cons.prems by (rule settles_fold)
            have s2: "settles (poll_channels e ws um chs)
                        (fold (save_message (db_now e) ws um ch) ms d)"
              using settles_unique[OF s1] by (rule Cons.IH)
            show ?thesis
              by (rule settles_cong[OF _ settles_comp[OF s1 s2]])
                 (simp add: live Http_response ok Some ms hok)
          qed
        qed
      qed
    qed
  qed
qed

lemma settles_opt_cong: "(\<And>d. F d = G d) \<Longrightarrow> settles_opt G \<Longrightarrow> settles_opt F"
  by (simp add: settles_opt_def)

lemma settles_opt_None: "settles_opt (\<lambda>d. None)"
  by (simp add: settles_opt_def)

lemma settles_opt_Some: "(\<And>d. keys_unique d \<Longrightarrow> settles f d) \<Longrightarrow> settles_opt (\<lambda>d. Some (f d))"
  unfolding settles_opt_def by (rule disjI2, rule exI[of _ f]) simp

lemma settles_opt_bind:
  assumes "settles_opt F" "settles_opt G"
  shows "settles_opt (\<lambda>d. case F d of None \<Rightarrow> None | Some d' \<Rightarrow> G d')"
proof (cases "(\<forall>d. F d = None) \<or> (\<forall>d. G d = None)")
  case True
  then have "(case F d of None \<Rightarrow> None | Some d' \<Rightarrow> G d') = None" for d
    by (auto split: option.splits)
  then show ?thesis by (simp add: settles_opt_def)
next
  case False
  with assms obtain f g where f: "\<And>d. F d = Some (f d)" and sf: "\<And>d. keys_unique d \<Longrightarrow> settles f d"
    and g: "\<And>d. G d = Some (g d)" and sg: "\<And>d. keys_unique d \<Longrightarrow> settles g d"
    unfolding settles_opt_def by blast
  have "settles (\<lambda>x. g (f x)) d" if "keys_unique d" for d
    using sf[OF that] sg[OF settles_unique[OF sf[OF that]]] by (rule settles_comp)
  then have "settles_opt (\<lambda>d. Some ((\<lambda>x. g (f x)) d))" by (rule settles_opt_Some)
  then show ?thesis by (rule settles_opt_cong[rotated]) (simp add: f g)
qed

lemma settles_workspace: "settles_opt (poll_workspace e ws)"
proof (cases "access_token ws = []")
  case True
  show ?thesis
    by (rule settles_opt_cong[OF _ settles_opt_Some[of "\<lambda>x. x"]])
       (simp_all add: poll_workspace_def True settles_id)
next
  case tok: False
  show ?thesis
  proof (cases "users_list e (access_token ws)")
    case Fetch_throws
    show ?thesis
      by (rule settles_opt_cong[OF _ settles_opt_Some[of "\<lambda>x. x"]])
         (simp_all add: poll_workspace_def tok Fetch_throws settles_id)
  next
    case (Http_response st ra body)
    show ?thesis
    proof (cases body)
      case None
      show ?thesis
        by (rule settles_opt_cong[OF _ settles_opt_Some[of "\<lambda>x. x"]])
           (simp_all add: poll_workspace_def tok Http_response None settles_id)
    next
      case (Some usersData)
      show ?thesis
      proof (cases "list_channels (conversations_list e (access_token ws)) (parseInt e) 0 [] [] []")
        case None
        show ?thesis
          by (rule settles_opt_cong[OF _ settles_opt_None])
             (simp add: poll_workspace_def tok Http_response Some None)
      next
        case chans: (Some r)
        obtain allChannels sleeps where r: "r = (allChannels, sleeps)" by (cases r)
        show ?thesis
          by (rule settles_opt_cong
                [OF _ settles_opt_Some[of "poll_channels e ws (build_userMap usersData) allChannels"]])
             (simp_all add: poll_workspace_def tok Http_response Some chans r settles_channels)
      qed
    qed
  qed
qed

lemma settles_workspaces: "settles_opt (poll_workspaces e wss)"
proof (induction wss)
  case Nil
  show ?case
    by (rule settles_opt_cong[OF _ settles_opt_Some[of "\<lambda>x. x"]]) (simp_all add: settles_id)
next
  case (Cons ws wss)
  from settles_opt_bind[OF settles_workspace[of e ws] Cons.IH]
  show ?case by (rule settles_opt_cong[rotated]) simp
qed

text \<open>
  From a store in which no (timestamp, channel) pair has more than one row, a poll that
  returns leaves a store that a second poll with the same answers of the provider does
  not change.
\<close>

lemma poll_is_idempotent:
  assumes u: "keys_unique d" and p: "fetchSlackMessages e d = Some d1"
  shows "fetchSlackMessages e d1 = Some d1"
proof (cases "\<not> slack_supabase (penv e) \<or> workspaces_query_fails e \<or> workspaces d = []")
  case True
  with p have "d1 = d" by (auto simp: fetchSlackMessages_def split: if_splits)
  with p show ?thesis by simp
next
  case False
  with p have pw: "poll_workspaces e (workspaces d) d = Some d1"
    by (simp add: fetchSlackMessages_def)
  with settles_workspaces[of e "workspaces d"] obtain f where
    f: "\<And>x. poll_workspaces e (workspaces d) x = Some (f x)"
    and sf: "\<And>x. keys_unique x \<Longrightarrow> settles f x" unfolding settles_opt_def by auto
  from pw f have d1: "d1 = f d" by simp
  from sf[OF u] have "keys_unique (f d)" "workspaces (f d) = workspaces d"
    "\<forall>d'. keys_unique d' \<and> covers (f d) d' \<longrightarrow> f d' = d'"
    by (simp_all add: settles_def)
  then have "f d1 = d1" "workspaces d1 = workspaces d" by (simp_all add: d1 covers_refl)
  with False f show ?thesis by (simp add: fetchSlackMessages_def)
qed

lemma poll_of_new_message_is_idempotent:
  "item_count (fetchSlackMessages chat_env one_workspace_db) = Some 1 \<and>
   item_count (Option.bind (fetchSlackMessages chat_env one_workspace_db)
                 (fetchSlackMessages chat_env)) = Some 1"
  by code_simp

text \<open>
  C5. In \<open>duplicated_db\<close> two rows have the channel and the timestamp of the polled
  message. The duplicate check asks for a single row, gets none, and the poll inserts the
  message again; a second poll with the same answers of the provider inserts it once
  more: 2, then 3, then 4 items.
\<close>

theorem poll_inserts_again_on_duplicates:
  "existing_item duplicated_db (msg_ts example_message) ''C1'' = None \<and>
   item_count (Some duplicated_db) = Some 2 \<and>
   item_count (fetchSlackMessages chat_env duplicated_db) = Some 3 \<and>
   item_count (Option.bind (fetchSlackMessages chat_env duplicated_db)
                 (fetchSlackMessages chat_env)) = Some 4"
  by code_simp

section \<open>AI summarization client: properties\<close>

text \<open>
  Without an API key the three entry points return null at once, with the console line
  as their only effect and no request to the provider.
\<close>

lemma no_key_no_request:
  "\<not> truthy key \<Longrightarrow>
     generateSummary parse key create msgs ci = (JNull, [OpenAI_key_missing]) \<and>
     generateReplyDraft key create originalMessage tone = (None, [OpenAI_key_missing]) \<and>
     askAboutSummary key create summaryContext question = (None, [OpenAI_key_missing])"
  by (simp add: generateSummary_def generateReplyDraft_def askAboutSummary_def)

text \<open>
  With a key, \<open>generateSummary\<close> returns null when the request throws, when there is no
  choice, when the content of the first choice is null or empty, and when \<open>JSON.parse\<close>
  rejects the content.
\<close>

lemma generateSummary_failure:
  assumes "truthy key"
    and "p = summary_prompt msgs ci"
    and "create p = Api_error \<or> create p = Choices [] \<or> create p = Choices (None # cs) \<or>
         create p = Choices (Some [] # cs) \<or> (create p = Choices (Some t # cs) \<and> parse t = None)"
  shows "fst (generateSummary parse key create msgs ci) = JNull"
  using assms by (auto simp: generateSummary_def Let_def)

text \<open>
  When the result is falsy for a user, the run writes the failure to the console, leaves
  the items and summaries of the user as they were, reports nothing for the user and
  returns its report.
\<close>

lemma ai_failure_skips_user:
  assumes cfg: "cron_supabase (penv e)"
    and poll: "fetchSlackMessages e d0 = Some d"
    and uq: "\<not> users_query_fails e"
    and pk0: "distinct (map item_id (items d0))"
    and batch: "fetch_pending d u \<noteq> []"
    and ok: "\<not> fetch_fails e u"
    and ai: "falsy (fst (summarize_for e d u (fetch_pending d u)))"
  shows "\<exists>d2 details console.
      runBatchSummarization e d0 = Some (d2, Batch_report (length details) details, console) \<and>
      filter (\<lambda>s. summary_user_id s = u) (summaries d2) =
        filter (\<lambda>s. summary_user_id s = u) (summaries d) \<and>
      filter (\<lambda>i. user_id i = u) (items d2) = filter (\<lambda>i. user_id i = u) (items d) \<and>
      filter (\<lambda>x. userId x = u) details = [] \<and>
      filter (\<lambda>ev. event_user ev = Some u) console = [Scheduler_ai_failed u]"
proof -
  have uin: "u \<in> set (pending_users d)" using batch by (simp add: pending_users_batch)
  then have ne: "pending_users d \<noteq> []" by auto
  have step: "process_user e u (d, [], []) =
      (d, [], snd (summarize_for e d u (fetch_pending d u)) @ [Scheduler_ai_failed u])"
    using batch ai ok by (simp add: process_user_unfold Let_def)
  from run_views [OF cfg poll uq pk0 ne] obtain d2 details console where
    run: "runBatchSummarization e d0 = Some (d2, Batch_report (length details) details, console)"
    and views: "\<And>w. user_view w (d2, details, console) =
           (if w \<in> set (pending_users d) then user_view w (process_user e w (d, [], []))
            else user_view w (d, [], []))"
    by blast
  have own: "user_view u (d2, details, console) =
      (filter (\<lambda>i. user_id i = u) (items d),
       filter (\<lambda>s. summary_user_id s = u) (summaries d),
       [], [Scheduler_ai_failed u], user_settings d)"
    unfolding views step using uin by (simp add: user_view_def summarize_events)
  show ?thesis
    apply (rule exI[of _ d2], rule exI[of _ details], rule exI[of _ console])
    using run own by (simp add: user_view_def)
qed

text \<open>
  C4. In \<open>empty_object_env\<close> the provider answers with the text \<open>{}\<close>, which
  \<open>JSON.parse\<close> accepts. \<open>generateSummary\<close> returns the parsed object as it is: the
  result is not null, it is truthy for the batch, and it has no \<open>summaryText\<close>, against
  the return type \<open>SummaryResult | null\<close> of the function.
\<close>

theorem malformed_reply_is_returned:
  "fst (summarize_for empty_object_env batch_db 1 (fetch_pending batch_db 1)) = JObj [] \<and>
   fst (summarize_for empty_object_env batch_db 1 (fetch_pending batch_db 1)) \<noteq> JNull \<and>
   \<not> falsy (fst (summarize_for empty_object_env batch_db 1 (fetch_pending batch_db 1))) \<and>
   get_prop (fst (summarize_for empty_object_env batch_db 1 (fetch_pending batch_db 1)))
     ''summaryText'' = JUndefined"
proof -
  have ne: "digest_text \<noteq> ''{}''" by (simp add: digest_text_def)
  have "fst (summarize_for empty_object_env d u b) = JObj []" for d u b
    using ne by (simp add: summarize_for_def generateSummary_def empty_object_env_def
        example_env_def example_penv_def example_JSON_parse_def Let_def)
  then show ?thesis by simp
qed

end
